theory Spec2Isabelle
  imports Complex_Main "HOL-Library.Multiset"
begin

section \<open>Data model\<close>

text \<open>
  The analytics platform of \<^verbatim>\<open>index.js\<close> keeps one global object \<^verbatim>\<open>analyticsData\<close> with four
  arrays and rewrites one JSON file after every change. The records are the object literals
  that \<^verbatim>\<open>trackPageView\<close>, \<^verbatim>\<open>trackEvent\<close> and \<^verbatim>\<open>registerUser\<close> build.

  Conventions of the embedding:
  \<^item> an instant is the number of milliseconds since the epoch; a \<^verbatim>\<open>timestamp\<close> field holds
    the string \<^verbatim>\<open>new Date().toISOString()\<close>, which is represented by the instant it denotes
    (\<^verbatim>\<open>new Date(pv.timestamp)\<close> reads that instant back);
  \<^item> the text fields are strings, as the README documents them; a request property that is
    absent or \<^verbatim>\<open>null\<close> is \<open>None\<close>, and \<open>None\<close> and the empty string are the falsy values
    of \<^verbatim>\<open>x || default\<close>;
  \<^item> \<^verbatim>\<open>properties\<close> and \<^verbatim>\<open>metadata\<close> are objects of values that \<^verbatim>\<open>JSON.parse\<close> has read from a
    request body, which the code stores and never inspects (an object, even an empty one, is
    truthy); an object is the list of its own properties in the order of \<^verbatim>\<open>Object.keys\<close>;
  \<^item> a number inside such a value is a double: a finite value (a rational, \<open>Finite 0\<close> being
    the positive zero), the negative zero, an infinity (which \<^verbatim>\<open>JSON.parse\<close> reads from a
    literal beyond the range, such as \<^verbatim>\<open>1e400\<close>) or \<^verbatim>\<open>NaN\<close>;
  \<^item> the hours of a window are exact integers, which is what the double arithmetic of the
    code computes for magnitudes below \<open>2^53\<close>.
\<close>

type_synonym instant = int

datatype jsnumber = Finite rat | NegZero | PosInfinity | NegInfinity | NaN

datatype json =
    JNull
  | JBool bool
  | JNum jsnumber
  | JStr string
  | JArr "json list"
  | JObj "(string \<times> json) list"

type_synonym object = "(string \<times> json) list"

record pageView =
  pv_id :: string
  pv_timestamp :: instant
  pv_page :: string
  pv_userId :: string
  pv_sessionId :: string
  pv_referrer :: string
  pv_userAgent :: string

record event =
  ev_id :: string
  ev_timestamp :: instant
  ev_eventName :: string
  ev_category :: string
  ev_userId :: string
  ev_sessionId :: string
  ev_properties :: object

record user =
  u_userId :: string
  u_email :: string
  u_name :: string
  u_registeredAt :: instant
  u_lastSeen :: instant
  u_metadata :: object

record store =
  pageViews :: "pageView list"
  events :: "event list"
  users :: "user list"
  sessions :: "json list"

text \<open>The parsed body of a POST request: the properties the three ingest operations read.\<close>

record data =
  in_page :: "string option"
  in_userId :: "string option"
  in_sessionId :: "string option"
  in_referrer :: "string option"
  in_userAgent :: "string option"
  in_eventName :: "string option"
  in_category :: "string option"
  in_properties :: "object option"
  in_email :: "string option"
  in_name :: "string option"
  in_metadata :: "object option"

datatype error = SyntaxError string | TypeError string | IOError string

fun message :: "error \<Rightarrow> string" where
  "message (SyntaxError m) = m"
| "message (TypeError m) = m"
| "message (IOError m) = m"

text \<open>
  The text of a file, represented by what \<^verbatim>\<open>JSON.parse\<close> makes of it: the store it denotes, or
  the message of the \<^verbatim>\<open>SyntaxError\<close> it raises.

  \<^verbatim>\<open>JSON.stringify\<close> writes a string, a boolean, \<^verbatim>\<open>null\<close> and a finite number as a text that
  denotes the same value, an array and an object member by member, and it has no text for the
  other numbers: it writes \<^verbatim>\<open>null\<close> for an infinity and for \<^verbatim>\<open>NaN\<close>, and \<^verbatim>\<open>0\<close> for the negative
  zero. \<open>written v\<close> is the value that the text written for \<open>v\<close> denotes. The text fields and
  the timestamps of the records are strings, which are written as they are.
\<close>

datatype file_text = SnapshotText store | BrokenText string

fun written :: "json \<Rightarrow> json" where
  "written (JNum (Finite q)) = JNum (Finite q)"
| "written (JNum NegZero) = JNum (Finite 0)"
| "written (JNum PosInfinity) = JNull"
| "written (JNum NegInfinity) = JNull"
| "written (JNum NaN) = JNull"
| "written (JArr vs) = JArr (map written vs)"
| "written (JObj kvs) = JObj (map (\<lambda>(k, v). (k, written v)) kvs)"
| "written JNull = JNull"
| "written (JBool b) = JBool b"
| "written (JStr s) = JStr s"

definition written_object :: "object \<Rightarrow> object" where
  "written_object kvs = map (\<lambda>(k, v). (k, written v)) kvs"

definition written_store :: "store \<Rightarrow> store" where
  "written_store st =
     st\<lparr>events := map (\<lambda>ev. ev\<lparr>ev_properties := written_object (ev_properties ev)\<rparr>) (events st),
        users := map (\<lambda>u. u\<lparr>u_metadata := written_object (u_metadata u)\<rparr>) (users st),
        sessions := map written (sessions st)\<rparr>"

definition JSON_stringify :: "store \<Rightarrow> file_text" where
  "JSON_stringify st = SnapshotText (written_store st)"

fun JSON_parse :: "file_text \<Rightarrow> error + store" where
  "JSON_parse (SnapshotText st) = Inr st"
| "JSON_parse (BrokenText m) = Inl (SyntaxError m)"

text \<open>
  The values that \<^verbatim>\<open>JSON.stringify\<close> has a text for: every value in which no number is an
  infinity, \<^verbatim>\<open>NaN\<close> or the negative zero. A store is preserved when the \<^verbatim>\<open>properties\<close> of its
  events, the \<^verbatim>\<open>metadata\<close> of its users and its sessions hold only such values.
\<close>

fun preserved :: "json \<Rightarrow> bool" where
  "preserved (JNum (Finite q)) = True"
| "preserved (JNum n) = False"
| "preserved (JArr vs) = list_all preserved vs"
| "preserved (JObj kvs) = list_all (\<lambda>(k, v). preserved v) kvs"
| "preserved v = True"

definition preserved_object :: "object \<Rightarrow> bool" where
  "preserved_object kvs = list_all (\<lambda>(k, v). preserved v) kvs"

definition preserved_store :: "store \<Rightarrow> bool" where
  "preserved_store st =
     (list_all (\<lambda>ev. preserved_object (ev_properties ev)) (events st)
      \<and> list_all (\<lambda>u. preserved_object (u_metadata u)) (users st)
      \<and> list_all preserved (sessions st))"

section \<open>The process and its environment\<close>

text \<open>
  The state of the process and of what it reads from outside: the global \<^verbatim>\<open>analyticsData\<close>,
  the file \<^verbatim>\<open>./analytics-data.json\<close> (\<open>None\<close> when it does not exist), the lines written by
  \<^verbatim>\<open>console.log\<close>, the system clock (the \<open>k\<close>-th reading of the process is \<open>clock k\<close>), the
  random generator (the \<open>k\<close>-th \<^verbatim>\<open>Math.random().toString(36)\<close> is \<open>random k\<close>), and the faults
  of the file system (\<open>io_fault k = Some m\<close>: the \<open>k\<close>-th read or write raises with message \<open>m\<close>).
\<close>

record world =
  analyticsData :: store
  dataFile :: "file_text option"
  console :: "string list"
  clock :: "nat \<Rightarrow> instant"
  ticks :: nat
  random :: "nat \<Rightarrow> string"
  draws :: nat
  io_fault :: "nat \<Rightarrow> string option"
  io_calls :: nat

definition emptyStore :: store where
  "emptyStore = \<lparr>pageViews = [], events = [], users = [], sessions = []\<rparr>"

definition boot :: "world \<Rightarrow> world" where
  \<comment> \<open>a new process: the module initialiser sets the global to four empty arrays; the file stays\<close>
  "boot w = w\<lparr>analyticsData := emptyStore\<rparr>"

definition console_log :: "string \<Rightarrow> world \<Rightarrow> world" where
  "console_log line w = w\<lparr>console := console w @ [line]\<rparr>"

definition Date_now :: "world \<Rightarrow> instant \<times> world" where
  \<comment> \<open>\<^verbatim>\<open>Date.now()\<close> and \<^verbatim>\<open>new Date()\<close>: one reading of the clock\<close>
  "Date_now w = (clock w (ticks w), w\<lparr>ticks := Suc (ticks w)\<rparr>)"

definition Math_random_toString36 :: "world \<Rightarrow> string \<times> world" where
  "Math_random_toString36 w = (random w (draws w), w\<lparr>draws := Suc (draws w)\<rparr>)"

definition existsSync :: "world \<Rightarrow> bool" where
  "existsSync w = (dataFile w \<noteq> None)"

definition readFileSync :: "world \<Rightarrow> (error + file_text) \<times> world" where
  "readFileSync w =
     (let w1 = w\<lparr>io_calls := Suc (io_calls w)\<rparr> in
      case io_fault w (io_calls w) of
        Some m \<Rightarrow> (Inl (IOError m), w1)
      | None \<Rightarrow>
          (case dataFile w of
             None \<Rightarrow> (Inl (IOError ''ENOENT: no such file or directory''), w1)
           | Some t \<Rightarrow> (Inr t, w1)))"

definition writeFileSync :: "file_text \<Rightarrow> world \<Rightarrow> (error + unit) \<times> world" where
  \<comment> \<open>a write that raises is taken to leave the file as it was\<close>
  "writeFileSync t w =
     (let w1 = w\<lparr>io_calls := Suc (io_calls w)\<rparr> in
      case io_fault w (io_calls w) of
        Some m \<Rightarrow> (Inl (IOError m), w1)
      | None \<Rightarrow> (Inr (), w1\<lparr>dataFile := Some t\<rparr>))"

section \<open>Store: load and save\<close>

text \<open>
  \<^verbatim>\<open>initializeDataStore\<close>: the read and the parse are inside \<^verbatim>\<open>try\<close>; the \<^verbatim>\<open>catch\<close> logs and goes
  on. The result is \<open>Inr\<close> when the function returns and \<open>Inl\<close> when an exception leaves it.
\<close>

definition initializeDataStore :: "world \<Rightarrow> error + world" where
  "initializeDataStore w =
     (if existsSync w then
        (case readFileSync w of
           (Inl err, w1) \<Rightarrow>
             Inr (console_log (''Error loading data file, using empty store: '' @ message err) w1)
         | (Inr fileContent, w1) \<Rightarrow>
             (case JSON_parse fileContent of
                Inl err \<Rightarrow>
                  Inr (console_log
                         (''Error loading data file, using empty store: '' @ message err) w1)
              | Inr parsed \<Rightarrow>
                  Inr (console_log ''Data loaded from file successfully''
                         (w1\<lparr>analyticsData := parsed\<rparr>))))
      else Inr (console_log ''No existing data file found, starting fresh'' w))"

definition saveDataToFile :: "world \<Rightarrow> world" where
  "saveDataToFile w =
     (case writeFileSync (JSON_stringify (analyticsData w)) w of
        (Inr _, w1) \<Rightarrow> console_log ''Data saved successfully'' w1
      | (Inl err, w1) \<Rightarrow> console_log (''Error saving data: '' @ message err) w1)"

section \<open>Ingest operations\<close>

definition digit36 :: "nat \<Rightarrow> char" where
  "digit36 d = ''0123456789abcdefghijklmnopqrstuvwxyz'' ! d"

fun digits36 :: "nat \<Rightarrow> string" where
  "digits36 n = (if n < 36 then [digit36 n] else digits36 (n div 36) @ [digit36 (n mod 36)])"

declare digits36.simps [simp del]

definition toString36 :: "int \<Rightarrow> string" where
  "toString36 i = (if i < 0 then CHR ''-'' # digits36 (nat (- i)) else digits36 (nat i))"

definition generateId :: "world \<Rightarrow> string \<times> world" where
  \<comment> \<open>\<^verbatim>\<open>Date.now().toString(36) + Math.random().toString(36).substr(2)\<close>\<close>
  "generateId w =
     (let (t, w1) = Date_now w;
          (r, w2) = Math_random_toString36 w1
      in (toString36 t @ drop 2 r, w2))"

definition or_default :: "string option \<Rightarrow> string \<Rightarrow> string" where
  \<comment> \<open>\<^verbatim>\<open>x || d\<close> for a string property\<close>
  "or_default x d = (case x of None \<Rightarrow> d | Some s \<Rightarrow> if s = [] then d else s)"

definition or_generateId :: "string option \<Rightarrow> world \<Rightarrow> string \<times> world" where
  \<comment> \<open>\<^verbatim>\<open>x || generateId()\<close>: the generator runs only when \<open>x\<close> is falsy\<close>
  "or_generateId x w =
     (case x of None \<Rightarrow> generateId w | Some s \<Rightarrow> if s = [] then generateId w else (s, w))"

definition or_empty :: "object option \<Rightarrow> object" where
  \<comment> \<open>\<^verbatim>\<open>x || {}\<close> for an object property\<close>
  "or_empty x = (case x of None \<Rightarrow> [] | Some ob \<Rightarrow> ob)"

definition push_pageView :: "pageView \<Rightarrow> world \<Rightarrow> world" where
  "push_pageView pv w =
     w\<lparr>analyticsData := (analyticsData w)\<lparr>pageViews := pageViews (analyticsData w) @ [pv]\<rparr>\<rparr>"

definition push_event :: "event \<Rightarrow> world \<Rightarrow> world" where
  "push_event ev w =
     w\<lparr>analyticsData := (analyticsData w)\<lparr>events := events (analyticsData w) @ [ev]\<rparr>\<rparr>"

text \<open>
  The argument of an ingest operation is the value \<^verbatim>\<open>JSON.parse(body)\<close>: \<open>None\<close> is \<^verbatim>\<open>null\<close>, on
  which the first property read raises a \<^verbatim>\<open>TypeError\<close>; the properties of the object literal
  are evaluated in the order they are written.
\<close>

fun trackPageView :: "data option \<Rightarrow> world \<Rightarrow> (error + pageView) \<times> world" where
  "trackPageView None w =
     (let (i, w1) = generateId w;
          (t, w2) = Date_now w1
      in (Inl (TypeError ''Cannot read properties of null (reading 'page')''), w2))"
| "trackPageView (Some d) w =
     (let (i, w1) = generateId w;
          (t, w2) = Date_now w1;
          (sid, w3) = or_generateId (in_sessionId d) w2;
          pageView = \<lparr>pv_id = i, pv_timestamp = t,
                      pv_page = or_default (in_page d) ''/'',
                      pv_userId = or_default (in_userId d) ''anonymous'',
                      pv_sessionId = sid,
                      pv_referrer = or_default (in_referrer d) '''',
                      pv_userAgent = or_default (in_userAgent d) ''''\<rparr>
      in (Inr pageView, saveDataToFile (push_pageView pageView w3)))"

fun trackEvent :: "data option \<Rightarrow> world \<Rightarrow> (error + event) \<times> world" where
  "trackEvent None w =
     (let (i, w1) = generateId w;
          (t, w2) = Date_now w1
      in (Inl (TypeError ''Cannot read properties of null (reading 'eventName')''), w2))"
| "trackEvent (Some d) w =
     (let (i, w1) = generateId w;
          (t, w2) = Date_now w1;
          (sid, w3) = or_generateId (in_sessionId d) w2;
          event = \<lparr>ev_id = i, ev_timestamp = t,
                   ev_eventName = or_default (in_eventName d) ''custom_event'',
                   ev_category = or_default (in_category d) ''general'',
                   ev_userId = or_default (in_userId d) ''anonymous'',
                   ev_sessionId = sid,
                   ev_properties = or_empty (in_properties d)\<rparr>
      in (Inr event, saveDataToFile (push_event event w3)))"

text \<open>
  The scan of \<^verbatim>\<open>registerUser\<close>: the first index whose \<^verbatim>\<open>userId\<close> is strictly equal to
  \<^verbatim>\<open>data.userId\<close>, or \<open>None\<close> for \<^verbatim>\<open>-1\<close>. A stored \<^verbatim>\<open>userId\<close> is a string, so an absent
  \<^verbatim>\<open>data.userId\<close> matches no entry.
\<close>

fun findUserIndex :: "user list \<Rightarrow> string option \<Rightarrow> nat \<Rightarrow> nat option" where
  "findUserIndex [] x i = None"
| "findUserIndex (u # us) x i =
     (if Some (u_userId u) = x then Some i else findUserIndex us x (Suc i))"

fun registerUser :: "data option \<Rightarrow> world \<Rightarrow> (error + user) \<times> world" where
  "registerUser None w =
     (Inl (TypeError ''Cannot read properties of null (reading 'userId')''), w)"
| "registerUser (Some d) w =
     (let us = users (analyticsData w);
          existingUserIndex = findUserIndex us (in_userId d) 0;
          (uid, w1) = or_generateId (in_userId d) w;
          (reg, w2) = (case existingUserIndex of
                         None \<Rightarrow> Date_now w1
                       | Some i \<Rightarrow> (u_registeredAt (us ! i), w1));
          (seen, w3) = Date_now w2;
          user = \<lparr>u_userId = uid,
                  u_email = or_default (in_email d) '''',
                  u_name = or_default (in_name d) '''',
                  u_registeredAt = reg,
                  u_lastSeen = seen,
                  u_metadata = or_empty (in_metadata d)\<rparr>;
          us' = (case existingUserIndex of
                   Some i \<Rightarrow> us[i := user]
                 | None \<Rightarrow> us @ [user]);
          w4 = w3\<lparr>analyticsData := (analyticsData w3)\<lparr>users := us'\<rparr>\<rparr>
      in (Inr user, saveDataToFile w4))"

declare trackPageView.simps [simp del] trackEvent.simps [simp del] registerUser.simps [simp del]

section \<open>Aggregator\<close>

text \<open>
  \<^verbatim>\<open>new Date(v)\<close> for a number \<open>v\<close>: a time value beyond 8.64e15 milliseconds on either side of
  the epoch gives an Invalid Date (\<open>None\<close>), and \<^verbatim>\<open>a >= b\<close> is false when one side is invalid.
\<close>

definition new_Date :: "int \<Rightarrow> instant option" where
  "new_Date v = (if \<bar>v\<bar> \<le> 8640000000000000 then Some v else None)"

fun date_ge :: "instant option \<Rightarrow> instant option \<Rightarrow> bool" where
  "date_ge (Some a) (Some b) = (b \<le> a)"
| "date_ge _ _ = False"

text \<open>
  The object \<^verbatim>\<open>uniqueUsers\<close> starts as \<^verbatim>\<open>{}\<close> and is represented by the list of its own keys.
  \<^verbatim>\<open>uniqueUsers[k] = true\<close> adds the key \<open>k\<close> unless it is there; for \<^verbatim>\<open>k = "__proto__"\<close> the
  assignment calls the setter inherited from \<^verbatim>\<open>Object.prototype\<close>, which ignores a value that
  is not an object, so that no key is added.
\<close>

definition set_true :: "string \<Rightarrow> string list \<Rightarrow> string list" where
  "set_true k keys =
     (if k = ''__proto__'' then keys else if k \<in> set keys then keys else keys @ [k])"

definition Object_keys :: "string list \<Rightarrow> string list" where
  "Object_keys keys = keys"

record statistics =
  timeRange :: int  \<comment> \<open>the number in the label \<^verbatim>\<open>timeRange + ' hours'\<close>\<close>
  totalPageViews :: nat
  totalEvents :: nat
  uniqueUsers :: nat
  totalUsers :: nat

text \<open>
  \<^verbatim>\<open>getStatistics\<close>, without the two breakdown objects \<^verbatim>\<open>topPages\<close> and \<^verbatim>\<open>topEvents\<close>. Its
  local values \<^verbatim>\<open>startTime\<close>, \<^verbatim>\<open>filteredPageViews\<close> and \<^verbatim>\<open>filteredEvents\<close> are definitions of
  their own, so that statements can name them.
\<close>

definition startTime :: "instant \<Rightarrow> int \<Rightarrow> instant option" where
  "startTime now h = new_Date (now - (if h = 0 then 24 else h) * 60 * 60 * 1000)"

definition filteredPageViews :: "instant option \<Rightarrow> store \<Rightarrow> pageView list" where
  "filteredPageViews start st =
     filter (\<lambda>pv. date_ge (Some (pv_timestamp pv)) start) (pageViews st)"

definition filteredEvents :: "instant option \<Rightarrow> store \<Rightarrow> event list" where
  "filteredEvents start st =
     filter (\<lambda>ev. date_ge (Some (ev_timestamp ev)) start) (events st)"

definition getStatistics :: "int \<Rightarrow> world \<Rightarrow> statistics \<times> world" where
  "getStatistics h w =
     (let (now, w1) = Date_now w;
          start = startTime now h;
          fpv = filteredPageViews start (analyticsData w1);
          fev = filteredEvents start (analyticsData w1);
          uniq = fold (\<lambda>pv keys. set_true (pv_userId pv) keys) fpv []
      in (\<lparr>timeRange = h,
           totalPageViews = length fpv,
           totalEvents = length fev,
           uniqueUsers = length (Object_keys uniq),
           totalUsers = length (users (analyticsData w1))\<rparr>, w1))"

record journey =
  j_userId :: "string option"
  j_pageViews :: "pageView list"
  j_events :: "event list"
  totalActions :: nat

text \<open>
  \<^verbatim>\<open>getUserJourney\<close>: the argument is a string or \<^verbatim>\<open>undefined\<close> (\<open>None\<close>). \<^verbatim>\<open>Array.prototype.sort\<close>
  with the comparator \<^verbatim>\<open>new Date(a.timestamp) - new Date(b.timestamp)\<close> is a stable sort by
  the instant (ECMAScript 2019), which is what \<open>sort_key\<close> computes.
\<close>

definition getUserJourney :: "string option \<Rightarrow> world \<Rightarrow> journey" where
  "getUserJourney userId w =
     (let userPageViews =
            sort_key pv_timestamp
              (filter (\<lambda>pv. Some (pv_userId pv) = userId) (pageViews (analyticsData w)));
          userEvents =
            sort_key ev_timestamp
              (filter (\<lambda>ev. Some (ev_userId ev) = userId) (events (analyticsData w)))
      in \<lparr>j_userId = userId, j_pageViews = userPageViews, j_events = userEvents,
          totalActions = length userPageViews + length userEvents\<rparr>)"

section \<open>The request handler\<close>

text \<open>
  The value of the query parameter \<^verbatim>\<open>hours\<close> is a JavaScript string, here the list of its
  UTF-16 code units; \<^verbatim>\<open>query.hours\<close> is \<^verbatim>\<open>undefined\<close> when the parameter is absent, the string
  when it occurs once and the array of the strings when it occurs several times, here the
  list of the occurrences. \<^verbatim>\<open>parseInt\<close> first converts its argument to a string: \<^verbatim>\<open>undefined\<close>
  gives the word, an array its elements joined by commas.

  \<^verbatim>\<open>parseInt(s)\<close> without a radix: leading white space (the white space and the line
  terminators of ECMAScript: tab, line feed, vertical tab, form feed, carriage return, space,
  no-break space U+00A0, U+1680, U+2000 to U+200A, U+2028, U+2029, U+202F, U+205F, U+3000 and
  U+FEFF), a sign, the prefix \<^verbatim>\<open>0x\<close> for base 16, then the longest run of digits; \<open>None\<close> is
  \<^verbatim>\<open>NaN\<close>.
\<close>

type_synonym code_units = "nat list"

definition units :: "string \<Rightarrow> code_units" where
  \<comment> \<open>the code units of an ASCII text\<close>
  "units s = map of_char s"

fun join_commas :: "code_units list \<Rightarrow> code_units" where
  "join_commas [] = []"
| "join_commas [v] = v"
| "join_commas (v # vs) = v @ 44 # join_commas vs"

definition toString_query :: "code_units list \<Rightarrow> code_units" where
  "toString_query vs = (if vs = [] then units ''undefined'' else join_commas vs)"

definition is_space :: "nat \<Rightarrow> bool" where
  "is_space c =
     (c \<in> {9, 10, 11, 12, 13, 32, 160, 5760, 8232, 8233, 8239, 8287, 12288, 65279}
      \<or> (8192 \<le> c \<and> c \<le> 8202))"

definition digit_value :: "nat \<Rightarrow> nat option" where
  "digit_value n =
     (if 48 \<le> n \<and> n \<le> 57 then Some (n - 48)
      else if 97 \<le> n \<and> n \<le> 122 then Some (n - 87)
      else if 65 \<le> n \<and> n \<le> 90 then Some (n - 55)
      else None)"

fun leading_digits :: "nat \<Rightarrow> code_units \<Rightarrow> nat list" where
  "leading_digits radix [] = []"
| "leading_digits radix (c # cs) =
     (case digit_value c of
        None \<Rightarrow> []
      | Some d \<Rightarrow> if d < radix then d # leading_digits radix cs else [])"

definition digits_value :: "nat \<Rightarrow> nat list \<Rightarrow> nat" where
  "digits_value radix ds = foldl (\<lambda>acc d. acc * radix + d) 0 ds"

definition parseInt :: "code_units \<Rightarrow> int option" where
  "parseInt s =
     (let s1 = dropWhile is_space s;
          (sign, s2) = (case s1 of
                          c # r \<Rightarrow> if c = 45 then (- 1 :: int, r)
                                   else if c = 43 then (1, r) else (1, s1)
                        | [] \<Rightarrow> (1, s1));
          (radix, s3) = (if take 2 s2 = [48, 120] \<or> take 2 s2 = [48, 88] then (16, drop 2 s2)
                         else (10, s2));
          ds = leading_digits radix s3
      in if ds = [] then None else Some (sign * int (digits_value radix ds)))"

definition hours_or_24 :: "code_units list \<Rightarrow> int" where
  \<comment> \<open>\<^verbatim>\<open>parseInt(query.hours) || 24\<close>: \<^verbatim>\<open>NaN\<close> and \<open>0\<close> are falsy\<close>
  "hours_or_24 x =
     (case parseInt (toString_query x) of None \<Rightarrow> 24 | Some n \<Rightarrow> if n = 0 then 24 else n)"

fun split_on :: "char \<Rightarrow> string \<Rightarrow> string list" where
  "split_on sep [] = [[]]"
| "split_on sep (c # cs) =
     (if c = sep then [] # split_on sep cs
      else (case split_on sep cs of
              p # ps \<Rightarrow> (c # p) # ps
            | [] \<Rightarrow> [[c]]))"

definition nth_opt :: "'a list \<Rightarrow> nat \<Rightarrow> 'a option" where
  \<comment> \<open>\<^verbatim>\<open>xs[i]\<close>: \<^verbatim>\<open>undefined\<close> out of range\<close>
  "nth_opt xs i = (if i < length xs then Some (xs ! i) else None)"

definition startsWith :: "string \<Rightarrow> string \<Rightarrow> bool" where
  "startsWith s p = (take (length p) s = p)"

definition endsWith :: "string \<Rightarrow> string \<Rightarrow> bool" where
  "endsWith s p = (length p \<le> length s \<and> drop (length s - length p) s = p)"

text \<open>
  The body of a POST request, represented by what \<^verbatim>\<open>JSON.parse\<close> makes of it: the value it
  denotes (\<open>None\<close> for \<^verbatim>\<open>null\<close>) or the message of the \<^verbatim>\<open>SyntaxError\<close>.

  A request is what \<^verbatim>\<open>handleRequest\<close> reads of it: the method, the \<^verbatim>\<open>pathname\<close> and the
  \<^verbatim>\<open>hours\<close> parameter that \<^verbatim>\<open>url.parse\<close> gives, and the body. A response is the status, the
  content type and the body that is sent; the three CORS headers, which every response
  carries, are left out. The body of a POST request arrives in chunks and is handled at the
  \<^verbatim>\<open>end\<close> event; the handler below is that whole exchange.
\<close>

datatype body_text = BodyJson "data option" | BodyBroken string

fun JSON_parse_body :: "body_text \<Rightarrow> error + data option" where
  "JSON_parse_body (BodyJson v) = Inr v"
| "JSON_parse_body (BodyBroken m) = Inl (SyntaxError m)"

record request =
  req_method :: string
  req_pathname :: string
  req_query_hours :: "code_units list"
  req_body :: body_text

datatype payload =
    NoBody
  | Dashboard statistics  \<comment> \<open>the page \<^verbatim>\<open>generateDashboard(stats)\<close>\<close>
  | StatsJson statistics
  | PageViewTracked pageView
  | EventTracked event
  | UserRegistered user
  | Failure string
  | JourneyJson journey
  | DataJson store
  | Cleared
  | NotFound

record response =
  status :: nat
  contentType :: "string option"
  body :: payload

definition respond :: "nat \<Rightarrow> string option \<Rightarrow> payload \<Rightarrow> response" where
  "respond st ct b = \<lparr>status = st, contentType = ct, body = b\<rparr>"

definition handleRequest :: "request \<Rightarrow> world \<Rightarrow> response \<times> world" where
  "handleRequest req w0 =
     (let pathname = req_pathname req;
          method = req_method req;
          w = console_log (method @ '' '' @ pathname) w0
      in
      if method = ''OPTIONS'' then (respond 200 None NoBody, w)
      else if pathname = ''/'' \<and> method = ''GET'' then
        (let (stats, w1) = getStatistics (hours_or_24 (req_query_hours req)) w
         in (respond 200 (Some ''text/html'') (Dashboard stats), w1))
      else if pathname = ''/stats'' \<and> method = ''GET'' then
        (let (stats, w1) = getStatistics (hours_or_24 (req_query_hours req)) w
         in (respond 200 (Some ''application/json'') (StatsJson stats), w1))
      else if pathname = ''/api/track/pageview'' \<and> method = ''POST'' then
        (case JSON_parse_body (req_body req) of
           Inl err \<Rightarrow> (respond 400 (Some ''application/json'') (Failure (message err)), w)
         | Inr d \<Rightarrow>
             (case trackPageView d w of
                (Inr result, w1) \<Rightarrow>
                  (respond 201 (Some ''application/json'') (PageViewTracked result), w1)
              | (Inl err, w1) \<Rightarrow>
                  (respond 400 (Some ''application/json'') (Failure (message err)), w1)))
      else if pathname = ''/api/track/event'' \<and> method = ''POST'' then
        (case JSON_parse_body (req_body req) of
           Inl err \<Rightarrow> (respond 400 (Some ''application/json'') (Failure (message err)), w)
         | Inr d \<Rightarrow>
             (case trackEvent d w of
                (Inr result, w1) \<Rightarrow>
                  (respond 201 (Some ''application/json'') (EventTracked result), w1)
              | (Inl err, w1) \<Rightarrow>
                  (respond 400 (Some ''application/json'') (Failure (message err)), w1)))
      else if pathname = ''/api/users'' \<and> method = ''POST'' then
        (case JSON_parse_body (req_body req) of
           Inl err \<Rightarrow> (respond 400 (Some ''application/json'') (Failure (message err)), w)
         | Inr d \<Rightarrow>
             (case registerUser d w of
                (Inr result, w1) \<Rightarrow>
                  (respond 201 (Some ''application/json'') (UserRegistered result), w1)
              | (Inl err, w1) \<Rightarrow>
                  (respond 400 (Some ''application/json'') (Failure (message err)), w1)))
      else if startsWith pathname ''/api/users/'' \<and> endsWith pathname ''/journey''
              \<and> method = ''GET'' then
        (let userId = nth_opt (split_on CHR ''/'' pathname) 3;
             journey = getUserJourney userId w
         in (respond 200 (Some ''application/json'') (JourneyJson journey), w))
      else if pathname = ''/api/data'' \<and> method = ''GET'' then
        (respond 200 (Some ''application/json'') (DataJson (analyticsData w)), w)
      else if pathname = ''/api/clear'' \<and> method = ''POST'' then
        (respond 200 (Some ''application/json'') Cleared,
         saveDataToFile (w\<lparr>analyticsData := emptyStore\<rparr>))
      else (respond 404 (Some ''application/json'') NotFound, w))"

section \<open>Runs of ingest operations\<close>

text \<open>
  The states the ingest operations reach: a run applies a sequence of calls, each on an input
  object, to the state of the process.
\<close>

datatype ingest = TrackPageView data | TrackEvent data | RegisterUser data

fun ingest_step :: "ingest \<Rightarrow> world \<Rightarrow> world" where
  "ingest_step (TrackPageView d) w = snd (trackPageView (Some d) w)"
| "ingest_step (TrackEvent d) w = snd (trackEvent (Some d) w)"
| "ingest_step (RegisterUser d) w = snd (registerUser (Some d) w)"

fun run :: "ingest list \<Rightarrow> world \<Rightarrow> world" where
  "run [] w = w"
| "run (c # cs) w = run cs (ingest_step c w)"

fun isTrackPageView :: "ingest \<Rightarrow> bool" where
  "isTrackPageView (TrackPageView d) = True"
| "isTrackPageView _ = False"

fun isTrackEvent :: "ingest \<Rightarrow> bool" where
  "isTrackEvent (TrackEvent d) = True"
| "isTrackEvent _ = False"








section \<open>Concrete inputs\<close>

definition noData :: data where
  \<comment> \<open>the body \<^verbatim>\<open>{}\<close>\<close>
  "noData = \<lparr>in_page = None, in_userId = None, in_sessionId = None, in_referrer = None,
     in_userAgent = None, in_eventName = None, in_category = None, in_properties = None,
     in_email = None, in_name = None, in_metadata = None\<rparr>"

definition world0 :: world where
  \<comment> \<open>a fresh process on 2 November 2026 with no data file, a clock that advances by one
      millisecond at each reading, and a file system without faults\<close>
  "world0 = \<lparr>analyticsData = emptyStore, dataFile = None, console = [],
     clock = (\<lambda>k. 1793577600000 + int k), ticks = 0,
     random = (\<lambda>k. ''0.k3x9'' @ digits36 k), draws = 0,
     io_fault = (\<lambda>k. None), io_calls = 0\<rparr>"

definition protoData :: data where
  \<comment> \<open>the body \<^verbatim>\<open>{"page": "/home", "userId": "__proto__"}\<close>\<close>
  "protoData = noData\<lparr>in_page := Some ''/home'', in_userId := Some ''__proto__''\<rparr>"

definition world_proto :: world where
  "world_proto = snd (trackPageView (Some protoData) world0)"

definition world_one :: world where
  \<comment> \<open>one page view tracked in the fresh process\<close>
  "world_one = snd (trackPageView (Some noData) world0)"

definition statsRequest :: request where
  "statsRequest = \<lparr>req_method = ''GET'', req_pathname = ''/stats'',
     req_query_hours = [units ''abc''], req_body = BodyBroken ''Unexpected end of JSON input''\<rparr>"

definition johnData :: data where
  \<comment> \<open>the first registration of the demo client\<close>
  "johnData = noData\<lparr>in_userId := Some ''user_001'', in_email := Some ''john@example.com'',
     in_name := Some ''John Doe'', in_metadata := Some [(''plan'', JStr ''premium'')]\<rparr>"

definition world_registered :: world where
  "world_registered = snd (registerUser (Some johnData) world0)"

definition johnAgain :: data where
  "johnAgain = noData\<lparr>in_userId := Some ''user_001'', in_email := Some ''john@example.com'',
     in_name := Some ''John Doe'', in_metadata := Some [(''trial'', JBool False)]\<rparr>"



definition journeyRequest :: request where
  "journeyRequest = \<lparr>req_method = ''GET'', req_pathname = ''/api/users/nobody/journey'',
     req_query_hours = [], req_body = BodyBroken ''Unexpected end of JSON input''\<rparr>"

text \<open>
  Two events: the body \<^verbatim>\<open>{"eventName":"purchase","properties":{"x":1e400}}\<close>, whose number
  \<^verbatim>\<open>JSON.parse\<close> reads as \<^verbatim>\<open>Infinity\<close>, and the purchase event that the test client sends.
\<close>

definition infData :: data where
  "infData = noData\<lparr>in_eventName := Some ''purchase'',
     in_properties := Some [(''x'', JNum PosInfinity)]\<rparr>"

definition world_inf :: world where
  "world_inf = snd (trackEvent (Some infData) world0)"

definition purchaseData :: data where
  "purchaseData = noData\<lparr>in_eventName := Some ''purchase'', in_category := Some ''conversion'',
     in_userId := Some ''user_001'', in_sessionId := Some ''session_001'',
     in_properties := Some [(''product'', JStr ''Premium Plan''),
        (''amount'', JNum (Finite (9999 / 100))), (''currency'', JStr ''USD'')]\<rparr>"

definition world_purchase :: world where
  "world_purchase = snd (trackEvent (Some purchaseData) world0)"

section \<open>Basic facts about the operations\<close>

lemma analyticsData_console_log [simp]: "analyticsData (console_log l w) = analyticsData w"
  by (simp add: console_log_def)

lemma analyticsData_saveDataToFile [simp]: "analyticsData (saveDataToFile w) = analyticsData w"
  by (simp add: saveDataToFile_def writeFileSync_def Let_def split: option.splits)

lemma generateId_eq:
  "generateId w = (toString36 (clock w (ticks w)) @ drop 2 (random w (draws w)),
                   w\<lparr>ticks := Suc (ticks w), draws := Suc (draws w)\<rparr>)"
  by (simp add: generateId_def Date_now_def Math_random_toString36_def)

lemma analyticsData_generateId [simp]: "analyticsData (snd (generateId w)) = analyticsData w"
  by (simp add: generateId_eq)

lemma analyticsData_Date_now [simp]: "analyticsData (snd (Date_now w)) = analyticsData w"
  by (simp add: Date_now_def)

lemma analyticsData_or_generateId [simp]:
  "analyticsData (snd (or_generateId x w)) = analyticsData w"
  by (simp add: or_generateId_def split: option.splits)

lemma or_default_falsy: "x = None \<or> x = Some [] \<Longrightarrow> or_default x d = d"
  by (auto simp: or_default_def)

section \<open>Ingest: the default page\<close>

text \<open>
  Claim C10. When the \<^verbatim>\<open>page\<close> property of the input object is absent (or \<^verbatim>\<open>null\<close>) or the
  empty string, \<^verbatim>\<open>trackPageView\<close> returns a record whose \<^verbatim>\<open>page\<close> is \<^verbatim>\<open>"/"\<close>, and that record
  is the one appended to the page-view sequence.
\<close>

theorem trackPageView_default_page:
  assumes "in_page d = None \<or> in_page d = Some []"
  shows "\<exists>pv w'. trackPageView (Some d) w = (Inr pv, w') \<and> pv_page pv = ''/''
           \<and> pageViews (analyticsData w') = pageViews (analyticsData w) @ [pv]"
  using assms
  by (simp add: trackPageView.simps case_prod_beta Let_def push_pageView_def or_default_falsy)

theorem trackPageView_default_page_witness:
  "(in_page noData = None \<or> in_page noData = Some []) \<and>
   (\<exists>pv w'. trackPageView (Some noData) world0 = (Inr pv, w') \<and> pv_page pv = ''/''
           \<and> pageViews (analyticsData w') = pageViews (analyticsData world0) @ [pv])"
  using trackPageView_default_page [of noData world0] by (simp add: noData_def)

section \<open>Statistics\<close>

lemma getStatistics_eq:
  "getStatistics h w =
     (\<lparr>timeRange = h,
       totalPageViews =
         length (filteredPageViews (startTime (clock w (ticks w)) h) (analyticsData w)),
       totalEvents =
         length (filteredEvents (startTime (clock w (ticks w)) h) (analyticsData w)),
       uniqueUsers =
         length (fold (\<lambda>pv keys. set_true (pv_userId pv) keys)
                   (filteredPageViews (startTime (clock w (ticks w)) h) (analyticsData w)) []),
       totalUsers = length (users (analyticsData w))\<rparr>,
      w\<lparr>ticks := Suc (ticks w)\<rparr>)"
  by (simp add: getStatistics_def Date_now_def Object_keys_def Let_def)

lemma set_true_fold:
  "set (fold (\<lambda>pv keys. set_true (pv_userId pv) keys) xs acc)
     = set acc \<union> (pv_userId ` set xs - {''__proto__''})
   \<and> (distinct acc \<longrightarrow> distinct (fold (\<lambda>pv keys. set_true (pv_userId pv) keys) xs acc))"
  by (induction xs arbitrary: acc) (auto simp: set_true_def)

lemma uniqueUsers_count:
  "length (fold (\<lambda>pv keys. set_true (pv_userId pv) keys) xs [])
     = card (pv_userId ` set xs - {''__proto__''})"
proof -
  have d: "distinct (fold (\<lambda>pv keys. set_true (pv_userId pv) keys) xs [])"
    using set_true_fold [of xs "[]"] by simp
  have "length (fold (\<lambda>pv keys. set_true (pv_userId pv) keys) xs [])
      = card (set (fold (\<lambda>pv keys. set_true (pv_userId pv) keys) xs []))"
    using d by (simp add: distinct_card)
  then show ?thesis using set_true_fold [of xs "[]"] by simp
qed

text \<open>
  What \<^verbatim>\<open>getStatistics\<close> counts as unique users: the distinct \<^verbatim>\<open>userId\<close> values of the page
  views in the window, the value \<^verbatim>\<open>"__proto__"\<close> left out. The events do not enter the count,
  and \<^verbatim>\<open>totalUsers\<close> is the length of the whole users sequence.
\<close>

lemma getStatistics_uniqueUsers:
  "uniqueUsers (fst (getStatistics h w))
     = card (pv_userId ` set (filteredPageViews (startTime (clock w (ticks w)) h)
                                (analyticsData w)) - {''__proto__''})
   \<and> totalUsers (fst (getStatistics h w)) = length (users (analyticsData w))"
  by (simp add: getStatistics_eq uniqueUsers_count)

lemma getStatistics_ignores_events:
  "uniqueUsers (fst (getStatistics h (w\<lparr>analyticsData := (analyticsData w)\<lparr>events := evs\<rparr>\<rparr>)))
     = uniqueUsers (fst (getStatistics h w))"
  by (simp add: getStatistics_eq filteredPageViews_def)

lemma world_proto_facts:
  "clock world_proto = (\<lambda>k. 1793577600000 + int k)"
  "ticks world_proto = 3"
  "map pv_userId (pageViews (analyticsData world_proto)) = [''__proto__'']"
  "map pv_timestamp (pageViews (analyticsData world_proto)) = [1793577600001]"
  by (simp_all add: world_proto_def protoData_def noData_def world0_def case_prod_beta Let_def
      trackPageView.simps generateId_eq Date_now_def or_generateId_def or_default_def push_pageView_def
      emptyStore_def saveDataToFile_def writeFileSync_def console_log_def)

text \<open>
  Claim C1, at a state the code reaches: after \<^verbatim>\<open>POST /api/track/pageview\<close> with the body
  \<^verbatim>\<open>{"page": "/home", "userId": "__proto__"}\<close> in a fresh process, the 24-hour window holds one
  page view, whose \<^verbatim>\<open>userId\<close> is one distinct value, and \<^verbatim>\<open>getStatistics(24)\<close> reports zero
  unique users.
\<close>

theorem getStatistics_uniqueUsers_proto:
  "totalPageViews (fst (getStatistics 24 world_proto)) = 1 \<and>
   uniqueUsers (fst (getStatistics 24 world_proto)) = 0 \<and>
   card (pv_userId ` set (filteredPageViews (startTime (clock world_proto (ticks world_proto)) 24)
                             (analyticsData world_proto))) = 1"
proof -
  obtain pv where pv: "pageViews (analyticsData world_proto) = [pv]"
    using world_proto_facts(3) by (cases "pageViews (analyticsData world_proto)") auto
  with world_proto_facts
  have f: "pv_userId pv = ''__proto__''" "pv_timestamp pv = 1793577600001"
    by auto
  have st: "startTime (clock world_proto (ticks world_proto)) 24 = Some 1793491200003"
    by (simp add: startTime_def new_Date_def world_proto_facts)
  have "filteredPageViews (Some 1793491200003) (analyticsData world_proto) = [pv]"
    by (simp add: filteredPageViews_def pv f)
  then show ?thesis
    by (simp add: getStatistics_eq st f set_true_def)
qed

lemma world_one_facts:
  "clock world_one = (\<lambda>k. 1793577600000 + int k)"
  "ticks world_one = 3"
  "map pv_timestamp (pageViews (analyticsData world_one)) = [1793577600001]"
  "events (analyticsData world_one) = []"
  by (simp_all add: world_one_def noData_def world0_def case_prod_beta Let_def
      trackPageView.simps generateId_eq Date_now_def or_generateId_def or_default_def push_pageView_def
      emptyStore_def saveDataToFile_def writeFileSync_def console_log_def)

lemma map_filter_timestamps:
  "map pv_timestamp (filteredPageViews start st)
     = filter (\<lambda>t. date_ge (Some t) start) (map pv_timestamp (pageViews st))"
  by (simp add: filteredPageViews_def filter_map comp_def)

lemma length_filteredPageViews:
  "length (filteredPageViews start st)
     = length (filter (\<lambda>t. date_ge (Some t) start) (map pv_timestamp (pageViews st)))"
  using map_filter_timestamps [of start st] by (metis length_map)

lemma parseInt_abc: "parseInt (units ''abc'') = None"
  by (simp add: parseInt_def units_def is_space_def digit_value_def)

subsection \<open>A window of zero or negative length\<close>

lemma parseInt_nbsp: "parseInt [160, 53] = Some 5"
  by (simp add: parseInt_def is_space_def digit_value_def digits_value_def)

lemma parseInt_zero: "parseInt (units ''0'') = Some 0"
  by (simp add: parseInt_def units_def is_space_def digit_value_def digits_value_def)

lemma toString_query_one: "toString_query [v] = v"
  by (simp add: toString_query_def)

lemma startTime_eq:
  "startTime now h =
     (if \<bar>now - (if h = 0 then 24 else h) * 3600000\<bar> \<le> 8640000000000000
      then Some (now - (if h = 0 then 24 else h) * 3600000) else None)"
proof -
  have "(if h = 0 then 24 else h) * 60 * 60 * 1000 = (if h = 0 then 24 else h) * 3600000"
    by simp
  then show ?thesis
    unfolding startTime_def new_Date_def by (simp only:)
qed

lemma filteredPageViews_Some:
  "filteredPageViews (Some s) st = filter (\<lambda>pv. s \<le> pv_timestamp pv) (pageViews st)"
  "filteredPageViews None st = []"
  by (simp_all add: filteredPageViews_def)

lemma filteredEvents_Some:
  "filteredEvents (Some s) st = filter (\<lambda>ev. s \<le> ev_timestamp ev) (events st)"
  "filteredEvents None st = []"
  by (simp_all add: filteredEvents_def)

lemma getStatistics_counts:
  "totalPageViews (fst (getStatistics h w)) =
     (if \<bar>clock w (ticks w) - (if h = 0 then 24 else h) * 3600000\<bar> \<le> 8640000000000000
      then length (filter (\<lambda>pv. clock w (ticks w) - (if h = 0 then 24 else h) * 3600000
                                 \<le> pv_timestamp pv) (pageViews (analyticsData w)))
      else 0)"
  "totalEvents (fst (getStatistics h w)) =
     (if \<bar>clock w (ticks w) - (if h = 0 then 24 else h) * 3600000\<bar> \<le> 8640000000000000
      then length (filter (\<lambda>ev. clock w (ticks w) - (if h = 0 then 24 else h) * 3600000
                                 \<le> ev_timestamp ev) (events (analyticsData w)))
      else 0)"
  by (simp_all add: getStatistics_eq startTime_eq filteredPageViews_Some filteredEvents_Some)

lemma handleRequest_stats:
  assumes "req_method req = ''GET''" and "req_pathname req = ''/stats''"
  shows "handleRequest req w =
     (respond 200 (Some ''application/json'')
        (StatsJson (fst (getStatistics (hours_or_24 (req_query_hours req))
                           (console_log ''GET /stats'' w)))),
      snd (getStatistics (hours_or_24 (req_query_hours req)) (console_log ''GET /stats'' w)))"
  using assms by (simp add: handleRequest_def Let_def case_prod_beta)

text \<open>
  Claim C3 as stated fails for a window of zero hours: \<^verbatim>\<open>timeRange || 24\<close> replaces \<open>0\<close> by \<open>24\<close>.
  In the process that has tracked one page view, \<^verbatim>\<open>getStatistics(0)\<close> at the instant
  1793577600003 computes a start 24 hours before that instant, and the page view tracked two
  milliseconds before the call is in the filtered page views.
\<close>

theorem getStatistics_zero_window_counterexample:
  "clock world_one (ticks world_one) = 1793577600003 \<and>
   startTime (clock world_one (ticks world_one)) 0 = Some 1793491200003 \<and>
   map pv_timestamp (filteredPageViews (startTime (clock world_one (ticks world_one)) 0)
                       (analyticsData world_one)) = [1793577600001] \<and>
   totalPageViews (fst (getStatistics 0 world_one)) = 1"
  by (simp add: getStatistics_eq length_filteredPageViews map_filter_timestamps world_one_facts
      startTime_def new_Date_def)

text \<open>
  Claim C3, amended. For a negative \<^verbatim>\<open>windowHours\<close> \<open>h\<close> the instant \<open>now - h\<close> hours lies after
  \<open>now\<close>; the start of the window is that instant when it is within the range of \<^verbatim>\<open>Date\<close> (at
  most 8.64e15 milliseconds from the epoch) and an Invalid Date otherwise. \<^verbatim>\<open>getStatistics(h)\<close>
  returns, as \<^verbatim>\<open>totalPageViews\<close> and \<^verbatim>\<open>totalEvents\<close>, the numbers of page views and of events
  whose timestamp is at or after that instant, and zero when the start is invalid: it counts
  only records with a timestamp after \<open>now\<close>. A \<^verbatim>\<open>windowHours\<close> of zero is replaced by the
  default: \<^verbatim>\<open>getStatistics(0)\<close> returns the statistics of \<^verbatim>\<open>getStatistics(24)\<close> under the label
  of zero hours, its start being 24 hours before \<open>now\<close>. At \<^verbatim>\<open>GET /stats\<close> a parameter \<^verbatim>\<open>hours\<close>
  that \<^verbatim>\<open>parseInt\<close> reads as \<^verbatim>\<open>NaN\<close> or as zero is answered with the statistics of 24 hours.
\<close>

theorem getStatistics_nonpositive_window:
  "(h < 0 \<longrightarrow>
      clock w (ticks w) < clock w (ticks w) - h * 3600000
      \<and> startTime (clock w (ticks w)) h =
          (if \<bar>clock w (ticks w) - h * 3600000\<bar> \<le> 8640000000000000
           then Some (clock w (ticks w) - h * 3600000) else None)
      \<and> totalPageViews (fst (getStatistics h w)) =
          (if \<bar>clock w (ticks w) - h * 3600000\<bar> \<le> 8640000000000000
           then length (filter (\<lambda>pv. clock w (ticks w) - h * 3600000 \<le> pv_timestamp pv)
                          (pageViews (analyticsData w)))
           else 0)
      \<and> totalEvents (fst (getStatistics h w)) =
          (if \<bar>clock w (ticks w) - h * 3600000\<bar> \<le> 8640000000000000
           then length (filter (\<lambda>ev. clock w (ticks w) - h * 3600000 \<le> ev_timestamp ev)
                          (events (analyticsData w)))
           else 0)
      \<and> totalPageViews (fst (getStatistics h w))
          \<le> length (filter (\<lambda>pv. clock w (ticks w) < pv_timestamp pv)
                        (pageViews (analyticsData w)))
      \<and> totalEvents (fst (getStatistics h w))
          \<le> length (filter (\<lambda>ev. clock w (ticks w) < ev_timestamp ev)
                        (events (analyticsData w))))
   \<and> getStatistics 0 w = ((fst (getStatistics 24 w))\<lparr>timeRange := 0\<rparr>, snd (getStatistics 24 w))
   \<and> startTime (clock w (ticks w)) 0 =
        (if \<bar>clock w (ticks w) - 86400000\<bar> \<le> 8640000000000000
         then Some (clock w (ticks w) - 86400000) else None)
   \<and> totalPageViews (fst (getStatistics 0 w)) =
        (if \<bar>clock w (ticks w) - 86400000\<bar> \<le> 8640000000000000
         then length (filter (\<lambda>pv. clock w (ticks w) - 86400000 \<le> pv_timestamp pv)
                        (pageViews (analyticsData w)))
         else 0)
   \<and> totalEvents (fst (getStatistics 0 w)) =
        (if \<bar>clock w (ticks w) - 86400000\<bar> \<le> 8640000000000000
         then length (filter (\<lambda>ev. clock w (ticks w) - 86400000 \<le> ev_timestamp ev)
                        (events (analyticsData w)))
         else 0)
   \<and> (req_method req = ''GET'' \<and> req_pathname req = ''/stats''
        \<and> (parseInt (toString_query (req_query_hours req)) = None
             \<or> parseInt (toString_query (req_query_hours req)) = Some 0) \<longrightarrow>
        handleRequest req w
          = (respond 200 (Some ''application/json'')
               (StatsJson (fst (getStatistics 24 (console_log ''GET /stats'' w)))),
             snd (getStatistics 24 (console_log ''GET /stats'' w))))"
proof -
  let ?now = "clock w (ticks w)"
  have neg: "?now < ?now - h * 3600000
      \<and> startTime ?now h =
          (if \<bar>?now - h * 3600000\<bar> \<le> 8640000000000000
           then Some (?now - h * 3600000) else None)
      \<and> totalPageViews (fst (getStatistics h w)) =
          (if \<bar>?now - h * 3600000\<bar> \<le> 8640000000000000
           then length (filter (\<lambda>pv. ?now - h * 3600000 \<le> pv_timestamp pv)
                          (pageViews (analyticsData w)))
           else 0)
      \<and> totalEvents (fst (getStatistics h w)) =
          (if \<bar>?now - h * 3600000\<bar> \<le> 8640000000000000
           then length (filter (\<lambda>ev. ?now - h * 3600000 \<le> ev_timestamp ev)
                          (events (analyticsData w)))
           else 0)
      \<and> totalPageViews (fst (getStatistics h w))
          \<le> length (filter (\<lambda>pv. ?now < pv_timestamp pv) (pageViews (analyticsData w)))
      \<and> totalEvents (fst (getStatistics h w))
          \<le> length (filter (\<lambda>ev. ?now < ev_timestamp ev) (events (analyticsData w)))"
    if h: "h < 0"
  proof -
    from h have nz: "h \<noteq> 0" by simp
    from h have after: "?now < ?now - h * 3600000" by simp
    have st: "startTime ?now h =
          (if \<bar>?now - h * 3600000\<bar> \<le> 8640000000000000
           then Some (?now - h * 3600000) else None)"
      using nz by (simp add: startTime_eq)
    have pv: "totalPageViews (fst (getStatistics h w)) =
          (if \<bar>?now - h * 3600000\<bar> \<le> 8640000000000000
           then length (filter (\<lambda>pv. ?now - h * 3600000 \<le> pv_timestamp pv)
                          (pageViews (analyticsData w)))
           else 0)"
      using nz getStatistics_counts(1) [of h w] by simp
    have ev: "totalEvents (fst (getStatistics h w)) =
          (if \<bar>?now - h * 3600000\<bar> \<le> 8640000000000000
           then length (filter (\<lambda>ev. ?now - h * 3600000 \<le> ev_timestamp ev)
                          (events (analyticsData w)))
           else 0)"
      using nz getStatistics_counts(2) [of h w] by simp
    have "length (filter (\<lambda>pv. ?now - h * 3600000 \<le> pv_timestamp pv) xs)
            \<le> length (filter (\<lambda>pv. ?now < pv_timestamp pv) xs)" for xs :: "pageView list"
      using after by (induction xs) auto
    then have pl: "totalPageViews (fst (getStatistics h w))
          \<le> length (filter (\<lambda>pv. ?now < pv_timestamp pv) (pageViews (analyticsData w)))"
      unfolding pv by simp
    have "length (filter (\<lambda>ev. ?now - h * 3600000 \<le> ev_timestamp ev) xs)
            \<le> length (filter (\<lambda>ev. ?now < ev_timestamp ev) xs)" for xs :: "event list"
      using after by (induction xs) auto
    then have el: "totalEvents (fst (getStatistics h w))
          \<le> length (filter (\<lambda>ev. ?now < ev_timestamp ev) (events (analyticsData w)))"
      unfolding ev by simp
    from after st pv ev pl el show ?thesis by blast
  qed
  have z0: "startTime ?now 0 = startTime ?now 24"
    by (simp add: startTime_def)
  have zero: "getStatistics 0 w
      = ((fst (getStatistics 24 w))\<lparr>timeRange := 0\<rparr>, snd (getStatistics 24 w))"
    by (simp add: getStatistics_eq z0)
  have zs: "startTime ?now 0 =
        (if \<bar>?now - 86400000\<bar> \<le> 8640000000000000 then Some (?now - 86400000) else None)"
    by (simp add: startTime_eq)
  have zp: "totalPageViews (fst (getStatistics 0 w)) =
        (if \<bar>?now - 86400000\<bar> \<le> 8640000000000000
         then length (filter (\<lambda>pv. ?now - 86400000 \<le> pv_timestamp pv)
                        (pageViews (analyticsData w)))
         else 0)"
    using getStatistics_counts(1) [of 0 w] by simp
  have ze: "totalEvents (fst (getStatistics 0 w)) =
        (if \<bar>?now - 86400000\<bar> \<le> 8640000000000000
         then length (filter (\<lambda>ev. ?now - 86400000 \<le> ev_timestamp ev)
                        (events (analyticsData w)))
         else 0)"
    using getStatistics_counts(2) [of 0 w] by simp
  have hd: "handleRequest req w
          = (respond 200 (Some ''application/json'')
               (StatsJson (fst (getStatistics 24 (console_log ''GET /stats'' w)))),
             snd (getStatistics 24 (console_log ''GET /stats'' w)))"
    if "req_method req = ''GET''" "req_pathname req = ''/stats''"
      "parseInt (toString_query (req_query_hours req)) = None
        \<or> parseInt (toString_query (req_query_hours req)) = Some 0"
  proof -
    from that(3) have "hours_or_24 (req_query_hours req) = 24"
      by (auto simp: hours_or_24_def)
    with handleRequest_stats [OF that(1,2), of w] show ?thesis by simp
  qed
  from neg zero zs zp ze hd show ?thesis by blast
qed


theorem getStatistics_nonpositive_window_witness:
  "(- 5 :: int) < 0
   \<and> startTime (clock world_one (ticks world_one)) (- 5) = Some 1793595600003
   \<and> clock world_one (ticks world_one) = 1793577600003
   \<and> totalPageViews (fst (getStatistics (- 5) world_one)) = 0
   \<and> totalEvents (fst (getStatistics (- 5) world_one)) = 0
   \<and> req_method statsRequest = ''GET'' \<and> req_pathname statsRequest = ''/stats''
   \<and> parseInt (toString_query (req_query_hours statsRequest)) = None
   \<and> handleRequest statsRequest world_one
        = (respond 200 (Some ''application/json'')
             (StatsJson (fst (getStatistics 24 (console_log ''GET /stats'' world_one)))),
           snd (getStatistics 24 (console_log ''GET /stats'' world_one)))"
proof -
  have now: "clock world_one (ticks world_one) = 1793577600003"
    by (simp add: world_one_facts)
  have q: "parseInt (toString_query (req_query_hours statsRequest)) = None"
    by (simp add: statsRequest_def toString_query_def parseInt_abc)
  have g: "req_method statsRequest = ''GET''" "req_pathname statsRequest = ''/stats''"
    by (simp_all add: statsRequest_def)
  have "length (filter (\<lambda>pv. 1793595600003 \<le> pv_timestamp pv)
                  (pageViews (analyticsData world_one)))
      = length (filter (\<lambda>t. 1793595600003 \<le> t)
                  (map pv_timestamp (pageViews (analyticsData world_one))))"
    by (simp add: filter_map comp_def)
  then have p: "length (filter (\<lambda>pv. 1793595600003 \<le> pv_timestamp pv)
                  (pageViews (analyticsData world_one))) = 0"
    unfolding world_one_facts by simp
  have e: "events (analyticsData world_one) = []"
    by (simp add: world_one_facts)
  show ?thesis
    using getStatistics_nonpositive_window [of "- 5" world_one statsRequest] q g p
    unfolding now e by simp
qed

subsection \<open>A positive window\<close>

lemma trackPageView_Some:
  "\<exists>pv. fst (trackPageView (Some d) w) = Inr pv
     \<and> pv_id pv = fst (generateId w)
     \<and> pv_timestamp pv = clock w (Suc (ticks w))
     \<and> analyticsData (snd (trackPageView (Some d) w))
          = (analyticsData w)\<lparr>pageViews := pageViews (analyticsData w) @ [pv]\<rparr>"
  by (simp add: trackPageView.simps case_prod_beta Let_def push_pageView_def generateId_eq
      Date_now_def)

lemma trackEvent_Some:
  "\<exists>ev. fst (trackEvent (Some d) w) = Inr ev
     \<and> ev_id ev = fst (generateId w)
     \<and> ev_timestamp ev = clock w (Suc (ticks w))
     \<and> analyticsData (snd (trackEvent (Some d) w))
          = (analyticsData w)\<lparr>events := events (analyticsData w) @ [ev]\<rparr>"
  by (simp add: trackEvent.simps case_prod_beta Let_def push_event_def generateId_eq
      Date_now_def)

lemma registerUser_Some_store:
  "pageViews (analyticsData (snd (registerUser (Some d) w))) = pageViews (analyticsData w)
   \<and> events (analyticsData (snd (registerUser (Some d) w))) = events (analyticsData w)"
  by (simp add: registerUser.simps case_prod_beta Let_def split: option.splits)

lemma ingest_step_lengths:
  "length (pageViews (analyticsData (ingest_step c w)))
     = length (pageViews (analyticsData w)) + (if isTrackPageView c then 1 else 0)
   \<and> length (events (analyticsData (ingest_step c w)))
     = length (events (analyticsData w)) + (if isTrackEvent c then 1 else 0)"
proof (cases c)
  case (TrackPageView d)
  then show ?thesis using trackPageView_Some [of d w] by auto
next
  case (TrackEvent d)
  then show ?thesis using trackEvent_Some [of d w] by auto
next
  case (RegisterUser d)
  then show ?thesis using registerUser_Some_store [of d w] by auto
qed

lemma run_lengths:
  "length (pageViews (analyticsData (run cs w)))
     = length (pageViews (analyticsData w)) + length (filter isTrackPageView cs)
   \<and> length (events (analyticsData (run cs w)))
     = length (events (analyticsData w)) + length (filter isTrackEvent cs)"
proof (induction cs arbitrary: w)
  case Nil
  then show ?case by simp
next
  case (Cons c cs)
  show ?case using Cons.IH [of "ingest_step c w"] ingest_step_lengths [of c w] by simp
qed

lemma startTime_valid:
  assumes "h \<noteq> 0" and "\<bar>now - h * 3600000\<bar> \<le> 8640000000000000"
  shows "startTime now h = Some (now - h * 3600000)"
  using assms by (simp add: startTime_def new_Date_def)

text \<open>
  Claim C4 as stated fails for a window so long that its start is beyond the range of
  \<^verbatim>\<open>Date\<close>: for 2450000000 hours the start is an Invalid Date, every comparison with it is
  false, and the count is zero, although the one page view of the store lies after the instant
  \<open>now - h\<close> hours.
\<close>

theorem getStatistics_huge_window_counterexample:
  "totalPageViews (fst (getStatistics 2450000000 world_one)) = 0 \<and>
   length (filter (\<lambda>pv. clock world_one (ticks world_one) - 2450000000 * 3600000 \<le> pv_timestamp pv)
             (pageViews (analyticsData world_one))) = 1"
proof -
  have "length (filter (\<lambda>pv. clock world_one (ticks world_one) - 2450000000 * 3600000 \<le> pv_timestamp pv)
             (pageViews (analyticsData world_one)))
     = length (filter (\<lambda>t. clock world_one (ticks world_one) - 2450000000 * 3600000 \<le> t)
             (map pv_timestamp (pageViews (analyticsData world_one))))"
    by (simp add: filter_map comp_def)
  then show ?thesis
    by (simp add: getStatistics_eq length_filteredPageViews world_one_facts startTime_def new_Date_def)
qed

text \<open>
  Claim C4, amended. For a positive \<^verbatim>\<open>windowHours\<close> \<open>h\<close> whose start \<open>now - h\<close> hours is within
  the range of \<^verbatim>\<open>Date\<close> (at most 8.64e15 milliseconds from the epoch), \<^verbatim>\<open>getStatistics(h)\<close>
  reads the clock once, and \<^verbatim>\<open>totalPageViews\<close> and \<^verbatim>\<open>totalEvents\<close> are the numbers of page views
  and of events whose timestamp is at or after that start, with no upper bound. In particular,
  when the store is the result of a run of ingest calls from the empty store and all its page
  views and events are at or after the start, the two counts are the numbers of
  \<^verbatim>\<open>trackPageView\<close> and of \<^verbatim>\<open>trackEvent\<close> calls of the run.
\<close>

theorem getStatistics_positive_window:
  assumes "0 < h" and "\<bar>clock w (ticks w) - h * 3600000\<bar> \<le> 8640000000000000"
  shows "startTime (clock w (ticks w)) h = Some (clock w (ticks w) - h * 3600000)
     \<and> totalPageViews (fst (getStatistics h w))
         = length (filter (\<lambda>pv. clock w (ticks w) - h * 3600000 \<le> pv_timestamp pv)
                     (pageViews (analyticsData w)))
     \<and> totalEvents (fst (getStatistics h w))
         = length (filter (\<lambda>ev. clock w (ticks w) - h * 3600000 \<le> ev_timestamp ev)
                     (events (analyticsData w)))
     \<and> ticks (snd (getStatistics h w)) = Suc (ticks w)
     \<and> (analyticsData w0 = emptyStore \<and> w = run cs w0
          \<and> (\<forall>pv \<in> set (pageViews (analyticsData w)).
                 clock w (ticks w) - h * 3600000 \<le> pv_timestamp pv)
          \<and> (\<forall>ev \<in> set (events (analyticsData w)).
                 clock w (ticks w) - h * 3600000 \<le> ev_timestamp ev)
        \<longrightarrow> totalPageViews (fst (getStatistics h w)) = length (filter isTrackPageView cs)
          \<and> totalEvents (fst (getStatistics h w)) = length (filter isTrackEvent cs))"
proof -
  let ?s = "clock w (ticks w) - h * 3600000"
  have st: "startTime (clock w (ticks w)) h = Some ?s"
    using assms by (simp add: startTime_valid)
  have pv: "totalPageViews (fst (getStatistics h w))
         = length (filter (\<lambda>pv. ?s \<le> pv_timestamp pv) (pageViews (analyticsData w)))"
    by (simp add: getStatistics_eq st filteredPageViews_def)
  have ev: "totalEvents (fst (getStatistics h w))
         = length (filter (\<lambda>ev. ?s \<le> ev_timestamp ev) (events (analyticsData w)))"
    by (simp add: getStatistics_eq st filteredEvents_def)
  have tk: "ticks (snd (getStatistics h w)) = Suc (ticks w)"
    by (simp add: getStatistics_eq)
  have rn: "totalPageViews (fst (getStatistics h w)) = length (filter isTrackPageView cs)
          \<and> totalEvents (fst (getStatistics h w)) = length (filter isTrackEvent cs)"
    if e: "analyticsData w0 = emptyStore" and r: "w = run cs w0"
      and ap: "\<forall>pv \<in> set (pageViews (analyticsData w)). ?s \<le> pv_timestamp pv"
      and ae: "\<forall>ev \<in> set (events (analyticsData w)). ?s \<le> ev_timestamp ev"
  proof -
    have "filter (\<lambda>pv. ?s \<le> pv_timestamp pv) (pageViews (analyticsData w))
            = pageViews (analyticsData w)"
      using ap by simp
    then have p1: "totalPageViews (fst (getStatistics h w)) = length (pageViews (analyticsData w))"
      using pv by simp
    have "filter (\<lambda>ev. ?s \<le> ev_timestamp ev) (events (analyticsData w))
            = events (analyticsData w)"
      using ae by simp
    then have e1: "totalEvents (fst (getStatistics h w)) = length (events (analyticsData w))"
      using ev by simp
    have "length (pageViews (analyticsData w)) = length (filter isTrackPageView cs)"
         "length (events (analyticsData w)) = length (filter isTrackEvent cs)"
      using run_lengths [of cs w0] e r by (simp_all add: emptyStore_def)
    with p1 e1 show ?thesis by simp
  qed
  from st pv ev tk rn show ?thesis by blast
qed

theorem getStatistics_positive_window_witness:
  "(0::int) < 24
   \<and> \<bar>clock world_one (ticks world_one) - 24 * 3600000\<bar> \<le> 8640000000000000
   \<and> analyticsData world0 = emptyStore
   \<and> world_one = run [TrackPageView noData] world0
   \<and> startTime (clock world_one (ticks world_one)) 24 = Some 1793491200003
   \<and> totalPageViews (fst (getStatistics 24 world_one)) = 1
   \<and> totalEvents (fst (getStatistics 24 world_one)) = 0
   \<and> ticks (snd (getStatistics 24 world_one)) = 4"
proof -
  have r: "world_one = run [TrackPageView noData] world0"
    by (simp add: world_one_def)
  have b: "\<bar>clock world_one (ticks world_one) - 24 * 3600000\<bar> \<le> 8640000000000000"
    by (simp add: world_one_facts)
  have ap: "\<forall>pv \<in> set (pageViews (analyticsData world_one)).
               clock world_one (ticks world_one) - 24 * 3600000 \<le> pv_timestamp pv"
  proof
    fix pv assume "pv \<in> set (pageViews (analyticsData world_one))"
    then have "pv_timestamp pv \<in> set (map pv_timestamp (pageViews (analyticsData world_one)))"
      by simp
    then show "clock world_one (ticks world_one) - 24 * 3600000 \<le> pv_timestamp pv"
      by (simp add: world_one_facts)
  qed
  have e: "analyticsData world0 = emptyStore" by (simp add: world0_def)
  show ?thesis
    using getStatistics_positive_window [of 24 world_one world0 "[TrackPageView noData]"] b ap e r
    by (simp add: world_one_facts)
qed

section \<open>Registering users\<close>

lemma findUserIndex_None:
  "findUserIndex us x k = None \<longleftrightarrow> (\<forall>u \<in> set us. Some (u_userId u) \<noteq> x)"
  by (induction us arbitrary: k) auto

lemma findUserIndex_Some:
  "findUserIndex us x k = Some i \<Longrightarrow>
     k \<le> i \<and> i - k < length us \<and> Some (u_userId (us ! (i - k))) = x
     \<and> (\<forall>j < i - k. Some (u_userId (us ! j)) \<noteq> x)"
proof (induction us arbitrary: k)
  case Nil
  then show ?case by simp
next
  case (Cons u us)
  show ?case
  proof (cases "Some (u_userId u) = x")
    case True
    with Cons.prems show ?thesis by simp
  next
    case False
    with Cons.prems have r: "findUserIndex us x (Suc k) = Some i" by simp
    from Cons.IH [OF r] have ih: "Suc k \<le> i" "i - Suc k < length us"
      "Some (u_userId (us ! (i - Suc k))) = x" "\<forall>j < i - Suc k. Some (u_userId (us ! j)) \<noteq> x"
      by auto
    from ih(1) have e: "i - k = Suc (i - Suc k)" by simp
    have "\<forall>j < i - k. Some (u_userId ((u # us) ! j)) \<noteq> x"
    proof (intro allI impI)
      fix j assume "j < i - k"
      then show "Some (u_userId ((u # us) ! j)) \<noteq> x"
        using False ih(4) e by (cases j) auto
    qed
    with ih e show ?thesis by simp
  qed
qed

lemma findUserIndex_0:
  "findUserIndex us x 0 = Some i \<Longrightarrow>
     i < length us \<and> Some (u_userId (us ! i)) = x \<and> (\<forall>j < i. Some (u_userId (us ! j)) \<noteq> x)"
  using findUserIndex_Some [of us x 0 i] by simp

lemma frame_saveDataToFile [simp]:
  "clock (saveDataToFile w) = clock w" "ticks (saveDataToFile w) = ticks w"
  "random (saveDataToFile w) = random w" "draws (saveDataToFile w) = draws w"
  by (simp_all add: saveDataToFile_def writeFileSync_def console_log_def Let_def
      split: option.splits)

lemma frame_or_generateId [simp]:
  "clock (snd (or_generateId x w)) = clock w"
  "ticks w \<le> ticks (snd (or_generateId x w))"
  by (simp_all add: or_generateId_def generateId_eq split: option.splits)

lemma registerUser_found_eq:
  assumes f: "findUserIndex (users (analyticsData w)) (in_userId d) 0 = Some i"
  shows "registerUser (Some d) w =
     (let w1 = snd (or_generateId (in_userId d) w);
          user = \<lparr>u_userId = fst (or_generateId (in_userId d) w),
                  u_email = or_default (in_email d) [],
                  u_name = or_default (in_name d) [],
                  u_registeredAt = u_registeredAt (users (analyticsData w) ! i),
                  u_lastSeen = clock w (ticks w1),
                  u_metadata = or_empty (in_metadata d)\<rparr>
      in (Inr user,
          saveDataToFile (w1\<lparr>ticks := Suc (ticks w1),
             analyticsData := (analyticsData w)\<lparr>users := (users (analyticsData w))[i := user]\<rparr>\<rparr>)))"
  by (simp add: registerUser.simps f case_prod_beta Let_def Date_now_def)

lemma registerUser_new_eq:
  assumes f: "findUserIndex (users (analyticsData w)) (in_userId d) 0 = None"
  shows "registerUser (Some d) w =
     (let w1 = snd (or_generateId (in_userId d) w);
          user = \<lparr>u_userId = fst (or_generateId (in_userId d) w),
                  u_email = or_default (in_email d) [],
                  u_name = or_default (in_name d) [],
                  u_registeredAt = clock w (ticks w1),
                  u_lastSeen = clock w (Suc (ticks w1)),
                  u_metadata = or_empty (in_metadata d)\<rparr>
      in (Inr user,
          saveDataToFile (w1\<lparr>ticks := Suc (Suc (ticks w1)),
             analyticsData := (analyticsData w)\<lparr>users := users (analyticsData w) @ [user]\<rparr>\<rparr>)))"
  by (simp add: registerUser.simps f case_prod_beta Let_def Date_now_def)

lemma registerUser_found:
  assumes f: "findUserIndex (users (analyticsData w)) (in_userId d) 0 = Some i"
  shows "\<exists>user w'. registerUser (Some d) w = (Inr user, w')
     \<and> users (analyticsData w') = (users (analyticsData w))[i := user]
     \<and> pageViews (analyticsData w') = pageViews (analyticsData w)
     \<and> events (analyticsData w') = events (analyticsData w)
     \<and> u_userId user = fst (or_generateId (in_userId d) w)
     \<and> u_registeredAt user = u_registeredAt (users (analyticsData w) ! i)
     \<and> u_lastSeen user = clock w (ticks w' - 1)
     \<and> ticks w < ticks w'
     \<and> clock w' = clock w
     \<and> u_email user = or_default (in_email d) []
     \<and> u_name user = or_default (in_name d) []
     \<and> u_metadata user = or_empty (in_metadata d)"
proof -
  have "ticks w \<le> ticks (snd (or_generateId (in_userId d) w))" by simp
  then show ?thesis
    unfolding registerUser_found_eq [OF f] by (simp add: Let_def less_Suc_eq_le)
qed


lemma or_generateId_truthy: "uid \<noteq> [] \<Longrightarrow> or_generateId (Some uid) w = (uid, w)"
  by (simp add: or_generateId_def)


lemma or_empty_eq: "or_empty x = (case x of None \<Rightarrow> [] | Some m \<Rightarrow> m)"
  by (simp add: or_empty_def)

lemma findUserIndex_exists:
  assumes "uid \<in> set (map u_userId us)"
  shows "\<exists>i. findUserIndex us (Some uid) 0 = Some i"
proof (cases "findUserIndex us (Some uid) 0")
  case None
  then have "\<forall>u \<in> set us. Some (u_userId u) \<noteq> Some uid"
    by (simp add: findUserIndex_None)
  with assms show ?thesis by auto
next
  case (Some i)
  then show ?thesis by simp
qed

lemma johnData_fields:
  "in_userId johnData = Some ''user_001''" "in_email johnData = Some ''john@example.com''"
  "in_name johnData = Some ''John Doe''" "in_metadata johnData = Some [(''plan'', JStr ''premium'')]"
  by (simp_all add: johnData_def noData_def)

lemma world0_fields:
  "analyticsData world0 = emptyStore" "clock world0 = (\<lambda>k. 1793577600000 + int k)"
  "ticks world0 = 0" "draws world0 = 0"
  by (simp_all add: world0_def)

lemma world_registered_facts:
  "users (analyticsData world_registered) =
     [\<lparr>u_userId = ''user_001'', u_email = ''john@example.com'', u_name = ''John Doe'',
       u_registeredAt = 1793577600000, u_lastSeen = 1793577600001,
       u_metadata = [(''plan'', JStr ''premium'')]\<rparr>]"
  "ticks world_registered = 2"
  "clock world_registered = (\<lambda>k. 1793577600000 + int k)"
proof -
  have f: "findUserIndex (users (analyticsData world0)) (in_userId johnData) 0 = None"
    by (simp add: world0_fields emptyStore_def)
  have g: "or_generateId (in_userId johnData) world0 = (''user_001'', world0)"
    by (simp add: johnData_fields or_generateId_def)
  show "users (analyticsData world_registered) =
     [\<lparr>u_userId = ''user_001'', u_email = ''john@example.com'', u_name = ''John Doe'',
       u_registeredAt = 1793577600000, u_lastSeen = 1793577600001,
       u_metadata = [(''plan'', JStr ''premium'')]\<rparr>]"
    unfolding world_registered_def registerUser_new_eq [OF f] g
    by (simp add: Let_def johnData_fields world0_fields emptyStore_def or_default_def or_empty_def)
  show "ticks world_registered = 2"
    unfolding world_registered_def registerUser_new_eq [OF f] g
    by (simp add: Let_def world0_fields)
  show "clock world_registered = (\<lambda>k. 1793577600000 + int k)"
    unfolding world_registered_def registerUser_new_eq [OF f] g
    by (simp add: Let_def world0_fields)
qed

text \<open>
  Claim C2. When the \<^verbatim>\<open>userId\<close> of the input occurs in the users sequence, \<^verbatim>\<open>registerUser\<close>
  replaces the first entry with that \<^verbatim>\<open>userId\<close> in place, by a record that keeps the entry's
  \<^verbatim>\<open>registeredAt\<close>, whose \<^verbatim>\<open>lastSeen\<close> is the last reading of the clock the call takes, and
  whose \<^verbatim>\<open>metadata\<close> is the input's (empty when absent), with nothing of the entry's old
  metadata. When the entry's \<^verbatim>\<open>lastSeen\<close> was an earlier reading of a clock that does not go
  backwards, the new \<^verbatim>\<open>lastSeen\<close> is at or after it.
\<close>

theorem registerUser_existing:
  assumes "in_userId d = Some uid"
    and "uid \<in> set (map u_userId (users (analyticsData w)))"
  shows "\<exists>i user w'. registerUser (Some d) w = (Inr user, w')
      \<and> i < length (users (analyticsData w))
      \<and> u_userId (users (analyticsData w) ! i) = uid
      \<and> (\<forall>j < i. u_userId (users (analyticsData w) ! j) \<noteq> uid)
      \<and> users (analyticsData w') = (users (analyticsData w))[i := user]
      \<and> u_registeredAt user = u_registeredAt (users (analyticsData w) ! i)
      \<and> u_lastSeen user = clock w (ticks w' - 1) \<and> ticks w < ticks w'
      \<and> u_metadata user = (case in_metadata d of None \<Rightarrow> [] | Some m \<Rightarrow> m)
      \<and> ((\<exists>k < ticks w. u_lastSeen (users (analyticsData w) ! i) = clock w k)
           \<and> (\<forall>j k. j \<le> k \<longrightarrow> clock w j \<le> clock w k)
          \<longrightarrow> u_lastSeen (users (analyticsData w) ! i) \<le> u_lastSeen user)"
proof -
  let ?us = "users (analyticsData w)"
  obtain i where f: "findUserIndex ?us (in_userId d) 0 = Some i"
    using findUserIndex_exists [OF assms(2)] assms(1) by auto
  from findUserIndex_0 [OF f] assms(1)
  have i: "i < length ?us" "u_userId (?us ! i) = uid" "\<forall>j < i. u_userId (?us ! j) \<noteq> uid"
    by auto
  from registerUser_found [OF f] obtain user w' where
    r: "registerUser (Some d) w = (Inr user, w')"
      "users (analyticsData w') = ?us[i := user]"
      "u_registeredAt user = u_registeredAt (?us ! i)"
      "u_lastSeen user = clock w (ticks w' - 1)" "ticks w < ticks w'"
      "u_metadata user = or_empty (in_metadata d)"
    by blast
  have m: "(\<exists>k < ticks w. u_lastSeen (?us ! i) = clock w k)
           \<and> (\<forall>j k. j \<le> k \<longrightarrow> clock w j \<le> clock w k)
          \<longrightarrow> u_lastSeen (?us ! i) \<le> u_lastSeen user"
  proof
    assume a: "(\<exists>k < ticks w. u_lastSeen (?us ! i) = clock w k)
           \<and> (\<forall>j k. j \<le> k \<longrightarrow> clock w j \<le> clock w k)"
    then obtain k where k: "k < ticks w" "u_lastSeen (?us ! i) = clock w k" by blast
    from k(1) r(5) have "k \<le> ticks w' - 1" by simp
    with a have "clock w k \<le> clock w (ticks w' - 1)" by blast
    with k(2) r(4) show "u_lastSeen (?us ! i) \<le> u_lastSeen user" by simp
  qed
  from r i m show ?thesis
    unfolding or_empty_eq by blast
qed

theorem registerUser_existing_witness:
  "in_userId johnAgain = Some ''user_001''
   \<and> ''user_001'' \<in> set (map u_userId (users (analyticsData world_registered)))
   \<and> (\<exists>user w'. registerUser (Some johnAgain) world_registered = (Inr user, w')
        \<and> users (analyticsData w') = [user]
        \<and> u_registeredAt user = 1793577600000
        \<and> u_metadata user = [(''trial'', JBool False)]
        \<and> 1793577600001 \<le> u_lastSeen user)"
proof -
  have a: "in_userId johnAgain = Some ''user_001''" by (simp add: johnAgain_def noData_def)
  have b: "''user_001'' \<in> set (map u_userId (users (analyticsData world_registered)))"
    by (simp add: world_registered_facts)
  from registerUser_existing [OF a b] obtain i user w' where
    r: "registerUser (Some johnAgain) world_registered = (Inr user, w')"
      "i < length (users (analyticsData world_registered))"
      "users (analyticsData w') = (users (analyticsData world_registered))[i := user]"
      "u_registeredAt user = u_registeredAt (users (analyticsData world_registered) ! i)"
      "u_lastSeen user = clock world_registered (ticks w' - 1)" "ticks world_registered < ticks w'"
      "u_metadata user = (case in_metadata johnAgain of None \<Rightarrow> [] | Some m \<Rightarrow> m)"
    by blast
  from r(2) have i: "i = 0" by (simp add: world_registered_facts)
  from r(5,6) have l: "1793577600001 \<le> u_lastSeen user"
    by (simp add: world_registered_facts)
  have m: "u_metadata user = [(''trial'', JBool False)]"
    using r(7) by (simp add: johnAgain_def noData_def)
  have u: "users (analyticsData w') = [user]"
    using r(3) i by (simp add: world_registered_facts)
  have g: "u_registeredAt user = 1793577600000"
    using r(4) i by (simp add: world_registered_facts)
  from a b r(1) u g m l show ?thesis by blast
qed

subsection \<open>Registering twice\<close>

lemma findUserIndex_update:
  "findUserIndex us x k = Some i \<Longrightarrow> Some (u_userId user) = x \<Longrightarrow>
     findUserIndex (us[(i - k) := user]) x k = Some i"
proof (induction us arbitrary: k)
  case Nil
  then show ?case by simp
next
  case (Cons u us)
  show ?case
  proof (cases "Some (u_userId u) = x")
    case True
    with Cons.prems show ?thesis by simp
  next
    case False
    with Cons.prems have r: "findUserIndex us x (Suc k) = Some i" by simp
    from findUserIndex_Some [OF r] have "Suc k \<le> i" by simp
    then have e: "i - k = Suc (i - Suc k)" by simp
    from Cons.IH [OF r Cons.prems(2)] False show ?thesis
      by (simp add: e)
  qed
qed

lemma findUserIndex_append:
  "findUserIndex us x k = None \<Longrightarrow> Some (u_userId user) = x \<Longrightarrow>
     findUserIndex (us @ [user]) x k = Some (k + length us)"
  by (induction us arbitrary: k) (auto split: if_splits)

lemma registerUser_new:
  assumes f: "findUserIndex (users (analyticsData w)) (in_userId d) 0 = None"
  shows "\<exists>user w'. registerUser (Some d) w = (Inr user, w')
     \<and> users (analyticsData w') = users (analyticsData w) @ [user]
     \<and> u_userId user = fst (or_generateId (in_userId d) w)
     \<and> u_lastSeen user = clock w (ticks w' - 1)
     \<and> ticks w < ticks w'
     \<and> clock w' = clock w
     \<and> u_metadata user = or_empty (in_metadata d)"
proof -
  have "ticks w \<le> Suc (ticks (snd (or_generateId (in_userId d) w)))"
    by (rule le_SucI) simp
  then show ?thesis
    unfolding registerUser_new_eq [OF f] by (simp add: Let_def less_Suc_eq_le)
qed

text \<open>
  The scenario of two registrations: a second call with the same non-empty \<^verbatim>\<open>userId\<close> returns
  the \<^verbatim>\<open>registeredAt\<close> of the first call's record and the metadata of the second input, the
  users sequence keeps its length, and with a clock that does not go backwards the second
  \<^verbatim>\<open>lastSeen\<close> is at or after the first.
\<close>

lemma registerUser_twice:
  assumes d1: "in_userId d1 = Some uid" and d2: "in_userId d2 = Some uid" and ne: "uid \<noteq> []"
  shows "\<exists>u1 w1 u2 w2. registerUser (Some d1) w = (Inr u1, w1)
     \<and> registerUser (Some d2) w1 = (Inr u2, w2)
     \<and> u_registeredAt u2 = u_registeredAt u1
     \<and> u_metadata u2 = or_empty (in_metadata d2)
     \<and> length (users (analyticsData w2)) = length (users (analyticsData w1))
     \<and> ((\<forall>j k. j \<le> k \<longrightarrow> clock w j \<le> clock w k) \<longrightarrow> u_lastSeen u1 \<le> u_lastSeen u2)"
proof -
  let ?us = "users (analyticsData w)"
  have g: "fst (or_generateId (in_userId d1) w) = uid"
    using d1 ne by (simp add: or_generateId_truthy)
  have first: "\<exists>u1 w1 i. registerUser (Some d1) w = (Inr u1, w1)
      \<and> findUserIndex (users (analyticsData w1)) (Some uid) 0 = Some i
      \<and> users (analyticsData w1) ! i = u1
      \<and> u_lastSeen u1 = clock w (ticks w1 - 1) \<and> ticks w < ticks w1 \<and> clock w1 = clock w"
  proof (cases "findUserIndex ?us (in_userId d1) 0")
    case None
    from registerUser_new [OF None] obtain u1 w1 where
      r: "registerUser (Some d1) w = (Inr u1, w1)"
        "users (analyticsData w1) = ?us @ [u1]"
        "u_userId u1 = fst (or_generateId (in_userId d1) w)"
        "u_lastSeen u1 = clock w (ticks w1 - 1)" "ticks w < ticks w1" "clock w1 = clock w"
      by blast
    from None d1 have n: "findUserIndex ?us (Some uid) 0 = None" by simp
    from r(3) g have "Some (u_userId u1) = Some uid" by simp
    from findUserIndex_append [OF n this]
    have "findUserIndex (users (analyticsData w1)) (Some uid) 0 = Some (length ?us)"
      by (simp add: r(2))
    moreover have "users (analyticsData w1) ! length ?us = u1"
      by (simp add: r(2))
    ultimately show ?thesis using r by blast
  next
    case (Some i)
    from registerUser_found [OF Some] obtain u1 w1 where
      r: "registerUser (Some d1) w = (Inr u1, w1)"
        "users (analyticsData w1) = ?us[i := u1]"
        "u_userId u1 = fst (or_generateId (in_userId d1) w)"
        "u_lastSeen u1 = clock w (ticks w1 - 1)" "ticks w < ticks w1" "clock w1 = clock w"
      by blast
    from Some d1 have s: "findUserIndex ?us (Some uid) 0 = Some i" by simp
    from findUserIndex_0 [OF s] have il: "i < length ?us" by simp
    from r(3) g have "Some (u_userId u1) = Some uid" by simp
    from findUserIndex_update [OF s this]
    have "findUserIndex (users (analyticsData w1)) (Some uid) 0 = Some i"
      by (simp add: r(2))
    moreover have "users (analyticsData w1) ! i = u1"
      using il by (simp add: r(2))
    ultimately show ?thesis using r by blast
  qed
  then obtain u1 w1 i where
    a: "registerUser (Some d1) w = (Inr u1, w1)"
      "findUserIndex (users (analyticsData w1)) (Some uid) 0 = Some i"
      "users (analyticsData w1) ! i = u1"
      "u_lastSeen u1 = clock w (ticks w1 - 1)" "ticks w < ticks w1" "clock w1 = clock w"
    by blast
  from a(2) d2 have f2: "findUserIndex (users (analyticsData w1)) (in_userId d2) 0 = Some i"
    by simp
  from registerUser_found [OF f2] obtain u2 w2 where
    b: "registerUser (Some d2) w1 = (Inr u2, w2)"
      "users (analyticsData w2) = (users (analyticsData w1))[i := u2]"
      "u_registeredAt u2 = u_registeredAt (users (analyticsData w1) ! i)"
      "u_lastSeen u2 = clock w1 (ticks w2 - 1)" "ticks w1 < ticks w2"
      "u_metadata u2 = or_empty (in_metadata d2)"
    by blast
  have m: "(\<forall>j k. j \<le> k \<longrightarrow> clock w j \<le> clock w k) \<longrightarrow> u_lastSeen u1 \<le> u_lastSeen u2"
  proof
    assume mono: "\<forall>j k. j \<le> k \<longrightarrow> clock w j \<le> clock w k"
    from b(5) have "ticks w1 - 1 \<le> ticks w2 - 1" by simp
    with mono have "clock w (ticks w1 - 1) \<le> clock w (ticks w2 - 1)" by blast
    then show "u_lastSeen u1 \<le> u_lastSeen u2"
      by (simp add: a(4) b(4) a(6))
  qed
  have "u_registeredAt u2 = u_registeredAt u1" using b(3) a(3) by simp
  moreover have "length (users (analyticsData w2)) = length (users (analyticsData w1))"
    by (simp add: b(2))
  ultimately show ?thesis using a(1) b(1) b(6) m by blast
qed

section \<open>Uniqueness of identifiers\<close>











subsection \<open>Base 36\<close>







lemma toString36_ambiguous: "toString36 1 @ ''0x'' = toString36 36 @ ''x''"
  by (simp add: toString36_def digits36.simps digit36_def)



subsection \<open>The invariant\<close>







subsection \<open>A run of six calls\<close>










subsection \<open>The identifiers of a run\<close>




section \<open>User journeys\<close>

lemma getUserJourney_eq:
  "j_pageViews (getUserJourney u w)
     = sort_key pv_timestamp (filter (\<lambda>pv. Some (pv_userId pv) = u) (pageViews (analyticsData w)))"
  "j_events (getUserJourney u w)
     = sort_key ev_timestamp (filter (\<lambda>ev. Some (ev_userId ev) = u) (events (analyticsData w)))"
  "totalActions (getUserJourney u w)
     = length (j_pageViews (getUserJourney u w)) + length (j_events (getUserJourney u w))"
  "j_userId (getUserJourney u w) = u"
  by (simp_all add: getUserJourney_def Let_def)

text \<open>
  Claim C5. \<^verbatim>\<open>getUserJourney(u)\<close> returns exactly the page views and the events whose \<^verbatim>\<open>userId\<close>
  is \<open>u\<close> (as multisets), each sequence sorted by timestamp in non-decreasing order, the
  records of one timestamp in the order they have in the store (the sort is stable), and
  \<^verbatim>\<open>totalActions\<close> is the sum of the two lengths.
\<close>

theorem getUserJourney_sorted:
  "mset (j_pageViews (getUserJourney (Some u) w))
     = mset (filter (\<lambda>pv. pv_userId pv = u) (pageViews (analyticsData w)))
   \<and> mset (j_events (getUserJourney (Some u) w))
     = mset (filter (\<lambda>ev. ev_userId ev = u) (events (analyticsData w)))
   \<and> sorted (map pv_timestamp (j_pageViews (getUserJourney (Some u) w)))
   \<and> sorted (map ev_timestamp (j_events (getUserJourney (Some u) w)))
   \<and> (\<forall>t. filter (\<lambda>pv. pv_timestamp pv = t) (j_pageViews (getUserJourney (Some u) w))
          = filter (\<lambda>pv. pv_timestamp pv = t)
              (filter (\<lambda>pv. pv_userId pv = u) (pageViews (analyticsData w))))
   \<and> (\<forall>t. filter (\<lambda>ev. ev_timestamp ev = t) (j_events (getUserJourney (Some u) w))
          = filter (\<lambda>ev. ev_timestamp ev = t)
              (filter (\<lambda>ev. ev_userId ev = u) (events (analyticsData w))))
   \<and> totalActions (getUserJourney (Some u) w)
     = length (j_pageViews (getUserJourney (Some u) w))
       + length (j_events (getUserJourney (Some u) w))"
proof -
  let ?pvs = "filter (\<lambda>pv. pv_userId pv = u) (pageViews (analyticsData w))"
  let ?evs = "filter (\<lambda>ev. ev_userId ev = u) (events (analyticsData w))"
  have p: "j_pageViews (getUserJourney (Some u) w) = sort_key pv_timestamp ?pvs"
    and e: "j_events (getUserJourney (Some u) w) = sort_key ev_timestamp ?evs"
    by (simp_all add: getUserJourney_eq)
  have "mset (sort_key pv_timestamp ?pvs) = mset ?pvs" "mset (sort_key ev_timestamp ?evs) = mset ?evs"
    by (rule mset_sort)+
  moreover have "sorted (map pv_timestamp (sort_key pv_timestamp ?pvs))"
    "sorted (map ev_timestamp (sort_key ev_timestamp ?evs))"
    by (rule sorted_sort_key)+
  moreover have "\<forall>t. filter (\<lambda>pv. pv_timestamp pv = t) (sort_key pv_timestamp ?pvs)
                    = filter (\<lambda>pv. pv_timestamp pv = t) ?pvs"
    "\<forall>t. filter (\<lambda>ev. ev_timestamp ev = t) (sort_key ev_timestamp ?evs)
                    = filter (\<lambda>ev. ev_timestamp ev = t) ?evs"
    by (simp_all add: sort_key_stable)
  ultimately show ?thesis
    unfolding p e using getUserJourney_eq(3) [of "Some u" w] unfolding p e by blast
qed

lemma split_on_no_sep: "sep \<notin> set s \<Longrightarrow> split_on sep s = [s]"
  by (induction s) auto

lemma split_on_append:
  "sep \<notin> set s \<Longrightarrow> split_on sep (s @ sep # rest) = s # split_on sep rest"
  by (induction s) auto

lemma journey_path_split:
  assumes "CHR ''/'' \<notin> set u"
  shows "split_on CHR ''/'' (''/api/users/'' @ u @ ''/journey'') = ['''', ''api'', ''users'', u, ''journey'']"
proof -
  have "split_on CHR ''/'' (u @ CHR ''/'' # ''journey'') = u # split_on CHR ''/'' ''journey''"
    using assms by (rule split_on_append)
  then show ?thesis by simp
qed

lemma journey_path_guards:
  "startsWith (''/api/users/'' @ u @ ''/journey'') ''/api/users/''"
  "endsWith (''/api/users/'' @ u @ ''/journey'') ''/journey''"
  by (simp_all add: startsWith_def endsWith_def)

lemma handleRequest_journey:
  assumes "req_method req = ''GET''" and "startsWith (req_pathname req) ''/api/users/''"
    and "endsWith (req_pathname req) ''/journey''"
  shows "handleRequest req w =
     (respond 200 (Some ''application/json'')
        (JourneyJson (getUserJourney (nth_opt (split_on CHR ''/'' (req_pathname req)) 3)
                        (console_log (''GET '' @ req_pathname req) w))),
      console_log (''GET '' @ req_pathname req) w)"
proof -
  have "req_pathname req \<noteq> ''/''" "req_pathname req \<noteq> ''/stats''"
    using assms(2) by (auto simp: startsWith_def)
  with assms show ?thesis
    by (simp add: handleRequest_def Let_def)
qed

lemma world_one_userIds:
  "map pv_userId (pageViews (analyticsData world_one)) = [''anonymous'']"
  "io_fault world_one = (\<lambda>k. None)"
  "io_calls world_one = 1"
  by (simp_all add: world_one_def noData_def world0_def case_prod_beta Let_def
      trackPageView.simps generateId_eq Date_now_def or_generateId_def or_default_def
      push_pageView_def emptyStore_def saveDataToFile_def writeFileSync_def console_log_def)

text \<open>
  Claim C8. For a \<^verbatim>\<open>userId\<close> \<open>u\<close> that no stored page view and no stored event has,
  \<^verbatim>\<open>getUserJourney(u)\<close> returns two empty sequences and a \<^verbatim>\<open>totalActions\<close> of zero, and the
  request \<^verbatim>\<open>GET /api/users/u/journey\<close> (for \<open>u\<close> without a slash, which the path would split)
  is answered with status 200 and that empty journey; every \<^verbatim>\<open>GET\<close> request on a path of the
  journey route is answered with status 200.
\<close>

theorem getUserJourney_unknown:
  assumes "\<forall>pv \<in> set (pageViews (analyticsData w)). pv_userId pv \<noteq> u"
    and "\<forall>ev \<in> set (events (analyticsData w)). ev_userId ev \<noteq> u"
  shows "getUserJourney (Some u) w
           = \<lparr>j_userId = Some u, j_pageViews = [], j_events = [], totalActions = 0\<rparr>
     \<and> (CHR ''/'' \<notin> set u \<longrightarrow>
          fst (handleRequest \<lparr>req_method = ''GET'',
                              req_pathname = ''/api/users/'' @ u @ ''/journey'',
                              req_query_hours = q, req_body = b\<rparr> w)
            = respond 200 (Some ''application/json'')
                (JourneyJson \<lparr>j_userId = Some u, j_pageViews = [], j_events = [],
                               totalActions = 0\<rparr>))
     \<and> (req_method req = ''GET'' \<and> startsWith (req_pathname req) ''/api/users/''
          \<and> endsWith (req_pathname req) ''/journey''
        \<longrightarrow> status (fst (handleRequest req w)) = 200)"
proof -
  have fp: "filter (\<lambda>pv. pv_userId pv = u) (pageViews (analyticsData w')) = []"
    if "analyticsData w' = analyticsData w" for w'
    using assms(1) that by (simp add: filter_empty_conv)
  have fe: "filter (\<lambda>ev. ev_userId ev = u) (events (analyticsData w')) = []"
    if "analyticsData w' = analyticsData w" for w'
    using assms(2) that by (simp add: filter_empty_conv)
  have j: "getUserJourney (Some u) w'
           = \<lparr>j_userId = Some u, j_pageViews = [], j_events = [], totalActions = 0\<rparr>"
    if "analyticsData w' = analyticsData w" for w'
    using fp [OF that] fe [OF that] by (simp add: getUserJourney_def Let_def)
  have a: "getUserJourney (Some u) w
           = \<lparr>j_userId = Some u, j_pageViews = [], j_events = [], totalActions = 0\<rparr>"
    by (rule j) simp
  have b: "fst (handleRequest \<lparr>req_method = ''GET'',
                              req_pathname = ''/api/users/'' @ u @ ''/journey'',
                              req_query_hours = q, req_body = b\<rparr> w)
            = respond 200 (Some ''application/json'')
                (JourneyJson \<lparr>j_userId = Some u, j_pageViews = [], j_events = [],
                               totalActions = 0\<rparr>)"
    if s: "CHR ''/'' \<notin> set u"
  proof -
    let ?req = "\<lparr>req_method = ''GET'', req_pathname = ''/api/users/'' @ u @ ''/journey'',
                  req_query_hours = q, req_body = b\<rparr>"
    have n: "nth_opt (split_on CHR ''/'' (req_pathname ?req)) 3 = Some u"
      using journey_path_split [OF s] by (simp add: nth_opt_def)
    have "fst (handleRequest ?req w)
        = respond 200 (Some ''application/json'')
            (JourneyJson (getUserJourney (nth_opt (split_on CHR ''/'' (req_pathname ?req)) 3)
                            (console_log (''GET '' @ req_pathname ?req) w)))"
      using journey_path_guards [of u] by (subst handleRequest_journey) simp_all
    then show ?thesis
      unfolding n by (simp add: j)
  qed
  have c: "status (fst (handleRequest req w)) = 200"
    if "req_method req = ''GET''" "startsWith (req_pathname req) ''/api/users/''"
      "endsWith (req_pathname req) ''/journey''"
    using handleRequest_journey [OF that] by (simp add: respond_def)
  from a b c show ?thesis by blast
qed

theorem getUserJourney_unknown_witness:
  "(''nobody'' \<notin> set (map pv_userId (pageViews (analyticsData world_one))))
   \<and> events (analyticsData world_one) = []
   \<and> CHR ''/'' \<notin> set ''nobody''
   \<and> getUserJourney (Some ''nobody'') world_one
        = \<lparr>j_userId = Some ''nobody'', j_pageViews = [], j_events = [], totalActions = 0\<rparr>
   \<and> fst (handleRequest journeyRequest world_one)
        = respond 200 (Some ''application/json'')
            (JourneyJson \<lparr>j_userId = Some ''nobody'', j_pageViews = [], j_events = [],
                           totalActions = 0\<rparr>)
   \<and> status (fst (handleRequest journeyRequest world_one)) = 200"
proof -
  have n: "''nobody'' \<notin> set (map pv_userId (pageViews (analyticsData world_one)))"
    by (simp add: world_one_userIds)
  then have p: "\<forall>pv \<in> set (pageViews (analyticsData world_one)). pv_userId pv \<noteq> ''nobody''"
    by force
  have e: "\<forall>ev \<in> set (events (analyticsData world_one)). ev_userId ev \<noteq> ''nobody''"
    by (simp add: world_one_facts)
  have g: "req_method journeyRequest = ''GET''"
    "startsWith (req_pathname journeyRequest) ''/api/users/''"
    "endsWith (req_pathname journeyRequest) ''/journey''"
    by (simp_all add: journeyRequest_def startsWith_def endsWith_def)
  have r: "journeyRequest = \<lparr>req_method = ''GET'',
                              req_pathname = ''/api/users/'' @ ''nobody'' @ ''/journey'',
                              req_query_hours = [],
                              req_body = BodyBroken ''Unexpected end of JSON input''\<rparr>"
    by (simp add: journeyRequest_def)
  from getUserJourney_unknown [OF p e, of "[]" "BodyBroken ''Unexpected end of JSON input''"
      journeyRequest] n g
  show ?thesis
    unfolding r [symmetric] by (simp add: world_one_facts respond_def)
qed

section \<open>Persistence\<close>

lemma written_preserved: "preserved v \<Longrightarrow> written v = v"
proof (induction v rule: written.induct)
  case (6 vs)
  then show ?case by (simp add: list_all_iff map_idI)
next
  case (7 kvs)
  then have "\<And>k v. (k, v) \<in> set kvs \<Longrightarrow> written v = v"
    by (auto simp: list_all_iff)
  then have "map (\<lambda>(k, v). (k, written v)) kvs = kvs"
    by (induction kvs) auto
  then show ?case by simp
qed simp_all

lemma written_object_preserved: "preserved_object kvs \<Longrightarrow> written_object kvs = kvs"
proof -
  assume "preserved_object kvs"
  then have "\<And>k v. (k, v) \<in> set kvs \<Longrightarrow> written v = v"
    by (auto simp: preserved_object_def list_all_iff written_preserved)
  then show ?thesis
    unfolding written_object_def by (induction kvs) auto
qed

lemma written_store_preserved:
  assumes "preserved_store st"
  shows "written_store st = st"
proof -
  have e: "map (\<lambda>ev. ev\<lparr>ev_properties := written_object (ev_properties ev)\<rparr>) (events st) = events st"
    using assms by (intro map_idI) (simp add: preserved_store_def list_all_iff written_object_preserved)
  have u: "map (\<lambda>u. u\<lparr>u_metadata := written_object (u_metadata u)\<rparr>) (users st) = users st"
    using assms by (intro map_idI) (simp add: preserved_store_def list_all_iff written_object_preserved)
  have s: "map written (sessions st) = sessions st"
    using assms by (intro map_idI) (simp add: preserved_store_def list_all_iff written_preserved)
  show ?thesis
    unfolding written_store_def e u s by simp
qed

lemma written_fixed: "written v = v \<Longrightarrow> preserved v"
proof (induction v rule: written.induct)
  case (6 vs)
  from "6.prems" have "map written vs = map id vs" by simp
  then have "\<forall>v \<in> set vs. written v = v" by (simp only: map_eq_conv) simp
  with "6.IH" show ?case by (simp add: list_all_iff)
next
  case (7 kvs)
  from "7.prems" have "map (\<lambda>(k, v). (k, written v)) kvs = map id kvs" by simp
  then have "\<forall>p \<in> set kvs. (\<lambda>(k, v). (k, written v)) p = p" by (simp only: map_eq_conv) simp
  then have "\<And>k v. (k, v) \<in> set kvs \<Longrightarrow> written v = v" by auto
  with "7.IH" show ?case by (auto simp: list_all_iff)
qed simp_all

lemma written_object_fixed: "written_object kvs = kvs \<Longrightarrow> preserved_object kvs"
proof -
  assume "written_object kvs = kvs"
  then have "map (\<lambda>(k, v). (k, written v)) kvs = map id kvs" by (simp add: written_object_def)
  then have "\<forall>p \<in> set kvs. (\<lambda>(k, v). (k, written v)) p = p" by (simp only: map_eq_conv) simp
  then have "\<And>k v. (k, v) \<in> set kvs \<Longrightarrow> written v = v" by auto
  then show ?thesis
    by (auto simp: preserved_object_def list_all_iff written_fixed)
qed

lemma written_store_fixed:
  assumes "written_store st = st"
  shows "preserved_store st"
proof -
  from assms have "events (written_store st) = events st" "users (written_store st) = users st"
    "sessions (written_store st) = sessions st"
    by simp_all
  then have e: "map (\<lambda>ev. ev\<lparr>ev_properties := written_object (ev_properties ev)\<rparr>) (events st) = map id (events st)"
    and u: "map (\<lambda>u. u\<lparr>u_metadata := written_object (u_metadata u)\<rparr>) (users st) = map id (users st)"
    and s: "map written (sessions st) = map id (sessions st)"
    by (simp_all add: written_store_def)
  have pe: "written_object (ev_properties ev) = ev_properties ev" if "ev \<in> set (events st)" for ev
  proof -
    from e that have "ev\<lparr>ev_properties := written_object (ev_properties ev)\<rparr> = ev"
      by (simp only: map_eq_conv) simp
    then have "ev_properties (ev\<lparr>ev_properties := written_object (ev_properties ev)\<rparr>) = ev_properties ev"
      by simp
    then show ?thesis by simp
  qed
  have pu: "written_object (u_metadata x) = u_metadata x" if "x \<in> set (users st)" for x
  proof -
    from u that have "x\<lparr>u_metadata := written_object (u_metadata x)\<rparr> = x"
      by (simp only: map_eq_conv) simp
    then have "u_metadata (x\<lparr>u_metadata := written_object (u_metadata x)\<rparr>) = u_metadata x"
      by simp
    then show ?thesis by simp
  qed
  have ps: "written v = v" if "v \<in> set (sessions st)" for v
    using s that by (simp only: map_eq_conv) simp
  show ?thesis
    by (simp add: preserved_store_def list_all_iff pe pu ps written_object_fixed written_fixed)
qed

lemma load_after_save_eq:
  assumes wr: "io_fault w (io_calls w) = None" and rd: "io_fault w (Suc (io_calls w)) = None"
  shows "initializeDataStore (boot (saveDataToFile w))
      = Inr (console_log ''Data loaded from file successfully''
               ((boot (saveDataToFile w))\<lparr>io_calls := Suc (Suc (io_calls w)),
                    analyticsData := written_store (analyticsData w)\<rparr>))"
proof -
  let ?saved = "saveDataToFile w"
  have saved_file: "dataFile ?saved = Some (SnapshotText (written_store (analyticsData w)))"
    and saved_calls: "io_calls ?saved = Suc (io_calls w)"
    and saved_fault: "io_fault ?saved = io_fault w"
    using wr
    by (simp_all add: saveDataToFile_def writeFileSync_def console_log_def JSON_stringify_def
        Let_def)
  let ?new = "boot ?saved"
  have new: "dataFile ?new = Some (SnapshotText (written_store (analyticsData w)))"
    "io_calls ?new = Suc (io_calls w)" "io_fault ?new = io_fault w"
    by (simp_all add: boot_def saved_file saved_calls saved_fault)
  have read: "readFileSync ?new
      = (Inr (SnapshotText (written_store (analyticsData w))),
         ?new\<lparr>io_calls := Suc (Suc (io_calls w))\<rparr>)"
    using rd by (simp add: readFileSync_def new Let_def)
  show ?thesis
    by (simp add: initializeDataStore_def existsSync_def new read)
qed

lemma world_inf_facts:
  "io_fault world_inf = (\<lambda>k. None)"
  "map ev_properties (events (analyticsData world_inf)) = [[(''x'', JNum PosInfinity)]]"
  by (simp_all add: world_inf_def infData_def noData_def world0_def case_prod_beta Let_def
      trackEvent.simps generateId_eq Date_now_def or_generateId_def or_default_def or_empty_def
      push_event_def emptyStore_def saveDataToFile_def writeFileSync_def console_log_def)

lemma world_purchase_facts:
  "io_fault world_purchase = (\<lambda>k. None)"
  "map ev_properties (events (analyticsData world_purchase))
     = [[(''product'', JStr ''Premium Plan''), (''amount'', JNum (Finite (9999 / 100))),
         (''currency'', JStr ''USD'')]]"
  "users (analyticsData world_purchase) = []"
  "sessions (analyticsData world_purchase) = []"
  by (simp_all add: world_purchase_def purchaseData_def noData_def world0_def case_prod_beta
      Let_def trackEvent.simps generateId_eq Date_now_def or_generateId_def or_default_def
      or_empty_def push_event_def emptyStore_def saveDataToFile_def writeFileSync_def
      console_log_def)

lemma map_ev_properties_written:
  "map ev_properties (events (written_store st))
     = map written_object (map ev_properties (events st))"
  by (simp add: written_store_def comp_def)

text \<open>
  Claim C6 as stated fails for a store that holds a number \<^verbatim>\<open>JSON.stringify\<close> has no text for.
  The body \<^verbatim>\<open>{"eventName":"purchase","properties":{"x":1e400}}\<close> is parsed with \<^verbatim>\<open>x\<close> equal to
  \<^verbatim>\<open>Infinity\<close>, and \<^verbatim>\<open>trackEvent\<close> stores it. The snapshot has \<^verbatim>\<open>"x":null\<close>, and although neither the
  write nor the read fails, the event that a new process loads has \<^verbatim>\<open>x\<close> equal to \<^verbatim>\<open>null\<close>.
\<close>

theorem save_then_load_counterexample:
  "io_fault world_inf (io_calls world_inf) = None
   \<and> io_fault world_inf (Suc (io_calls world_inf)) = None
   \<and> map ev_properties (events (analyticsData world_inf)) = [[(''x'', JNum PosInfinity)]]
   \<and> (case initializeDataStore (boot (saveDataToFile world_inf)) of
         Inr w' \<Rightarrow> map ev_properties (events (analyticsData w'))
       | Inl e \<Rightarrow> []) = [[(''x'', JNull)]]"
proof -
  have a: "io_fault world_inf (io_calls world_inf) = None"
    and b: "io_fault world_inf (Suc (io_calls world_inf)) = None"
    by (simp_all add: world_inf_facts)
  have "map ev_properties (events (written_store (analyticsData world_inf))) = [[(''x'', JNull)]]"
    unfolding map_ev_properties_written world_inf_facts by (simp add: written_object_def)
  then show ?thesis
    using a b by (simp add: load_after_save_eq [OF a b] world_inf_facts)
qed

text \<open>
  Claim C6, amended. When the write of \<^verbatim>\<open>saveDataToFile\<close> and the read of
  \<^verbatim>\<open>initializeDataStore\<close> do not fail, a new process loads the store that the snapshot denotes:
  the records in the same order, each value of a \<^verbatim>\<open>properties\<close> or \<^verbatim>\<open>metadata\<close> object and each
  session replaced by the value written for it. The page views are always identical. When
  the store is preserved (no infinity, \<^verbatim>\<open>NaN\<close> or negative zero in those values), the four
  sequences are identical; and a store that is loaded identical is a preserved one.
\<close>

theorem save_then_load:
  assumes wr: "io_fault w (io_calls w) = None" and rd: "io_fault w (Suc (io_calls w)) = None"
  shows "\<exists>w'. initializeDataStore (boot (saveDataToFile w)) = Inr w'
     \<and> analyticsData w' = written_store (analyticsData w)
     \<and> pageViews (analyticsData w') = pageViews (analyticsData w)
     \<and> (preserved_store (analyticsData w) \<longrightarrow>
          pageViews (analyticsData w') = pageViews (analyticsData w)
          \<and> events (analyticsData w') = events (analyticsData w)
          \<and> users (analyticsData w') = users (analyticsData w)
          \<and> sessions (analyticsData w') = sessions (analyticsData w))
     \<and> (analyticsData w' = analyticsData w \<longrightarrow> preserved_store (analyticsData w))"
proof -
  let ?w' = "console_log ''Data loaded from file successfully''
               ((boot (saveDataToFile w))\<lparr>io_calls := Suc (Suc (io_calls w)),
                    analyticsData := written_store (analyticsData w)\<rparr>)"
  have l: "initializeDataStore (boot (saveDataToFile w)) = Inr ?w'"
    using wr rd by (rule load_after_save_eq)
  have a: "analyticsData ?w' = written_store (analyticsData w)" by simp
  have p: "pageViews (written_store (analyticsData w)) = pageViews (analyticsData w)"
    by (simp add: written_store_def)
  have f: "analyticsData ?w' = analyticsData w" if "preserved_store (analyticsData w)"
    using that a by (simp add: written_store_preserved)
  have b: "preserved_store (analyticsData w)" if "analyticsData ?w' = analyticsData w"
    using that a by (simp add: written_store_fixed)
  from l a p f b show ?thesis by (metis (no_types, lifting))
qed

theorem save_then_load_witness:
  "io_fault world_purchase (io_calls world_purchase) = None
   \<and> io_fault world_purchase (Suc (io_calls world_purchase)) = None
   \<and> preserved_store (analyticsData world_purchase)
   \<and> length (events (analyticsData world_purchase)) = 1
   \<and> (\<exists>w'. initializeDataStore (boot (saveDataToFile world_purchase)) = Inr w'
        \<and> pageViews (analyticsData w') = pageViews (analyticsData world_purchase)
        \<and> events (analyticsData w') = events (analyticsData world_purchase)
        \<and> users (analyticsData w') = users (analyticsData world_purchase)
        \<and> sessions (analyticsData w') = sessions (analyticsData world_purchase))"
proof -
  have a: "io_fault world_purchase (io_calls world_purchase) = None"
    and b: "io_fault world_purchase (Suc (io_calls world_purchase)) = None"
    by (simp_all add: world_purchase_facts)
  have "list_all preserved_object (map ev_properties (events (analyticsData world_purchase)))"
    unfolding world_purchase_facts by (simp add: preserved_object_def)
  then have "list_all (\<lambda>ev. preserved_object (ev_properties ev)) (events (analyticsData world_purchase))"
    by (simp only: list_all_iff set_map ball_simps)
  then have p: "preserved_store (analyticsData world_purchase)"
    unfolding preserved_store_def world_purchase_facts(3,4) by simp
  have "length (map ev_properties (events (analyticsData world_purchase))) = 1"
    unfolding world_purchase_facts by simp
  then have l: "length (events (analyticsData world_purchase)) = 1" by simp
  from save_then_load [OF a b] a b p l show ?thesis by blast
qed

lemma initializeDataStore_cases:
  "\<exists>w' line. initializeDataStore w = Inr w'
      \<and> console w' = console w @ [line]
      \<and> dataFile w' = dataFile w
      \<and> analyticsData w' =
          (case dataFile w of
             Some (SnapshotText st) \<Rightarrow>
               if io_fault w (io_calls w) = None then st else analyticsData w
           | Some (BrokenText m) \<Rightarrow> analyticsData w
           | None \<Rightarrow> analyticsData w)"
proof (cases "dataFile w")
  case None
  then show ?thesis
    by (simp add: initializeDataStore_def existsSync_def console_log_def)
next
  case (Some t)
  show ?thesis
  proof (cases "io_fault w (io_calls w)")
    case None
    with Some show ?thesis
      by (cases t)
         (simp_all add: initializeDataStore_def existsSync_def readFileSync_def console_log_def
            Let_def)
  next
    case (Some m)
    with \<open>dataFile w = Some t\<close> show ?thesis
      by (cases t)
         (simp_all add: initializeDataStore_def existsSync_def readFileSync_def console_log_def
            Let_def)
  qed
qed

text \<open>
  Claim C7. \<^verbatim>\<open>initializeDataStore\<close> always returns, whatever the state of the file and of the
  file system: no exception leaves it. It writes one line to the console and leaves the file
  as it is. When the file exists, is read and parses, the in-memory state is the parsed
  snapshot; when the file is missing, the read fails or the text is not JSON, the state is
  what it was, which at the start of the process is the four empty sequences.
\<close>

theorem initializeDataStore_returns:
  "\<exists>w' line. initializeDataStore (boot w) = Inr w'
      \<and> console w' = console w @ [line]
      \<and> dataFile w' = dataFile w
      \<and> analyticsData w' =
          (case dataFile w of
             Some (SnapshotText st) \<Rightarrow>
               if io_fault w (io_calls w) = None then st else emptyStore
           | Some (BrokenText m) \<Rightarrow> emptyStore
           | None \<Rightarrow> emptyStore)"
proof -
  have b: "analyticsData (boot w) = emptyStore" "io_fault (boot w) = io_fault w"
    "io_calls (boot w) = io_calls w" "dataFile (boot w) = dataFile w"
    "console (boot w) = console w"
    by (simp_all add: boot_def)
  show ?thesis
    using initializeDataStore_cases [of "boot w"] unfolding b .
qed

end
